theory Spec2Isabelle
  imports Complex_Main "HOL-Library.Signed_Division"
begin

section \<open>Data model (types.ts)\<close>

text \<open>
  A tile has a type and an optional building record; the optional \<open>metadata\<close> field is
  never written or read by the code modelled here and is left out. Tile coordinates are
  integers, so that negative and too large ones can be asked for.
\<close>

datatype TileType = EMPTY | ROAD | RES | COM | IND | POWER_PLANT

record BuildingData =
  level :: int
  unpoweredTime :: real

record Tile =
  type :: TileType
  building :: "BuildingData option"

type_synonym TilePosition = "int \<times> int"

definition TILE_WIDTH :: real where "TILE_WIDTH = 64"
definition TILE_HEIGHT :: real where "TILE_HEIGHT = 32"

section \<open>Grid Store (WorldState.ts)\<close>

record WorldState =
  width :: int
  height :: int
  tileSize :: int
  tiles :: "Tile list list"
  seed :: int

definition worldToTile :: "real \<Rightarrow> real \<Rightarrow> TilePosition" where
  "worldToTile worldX worldY =
     (let tileW = TILE_WIDTH; tileH = TILE_HEIGHT;
          tileX = (worldX / (tileW / 2) + worldY / (tileH / 2)) / 2;
          tileY = (worldY / (tileH / 2) - worldX / (tileW / 2)) / 2
      in (\<lfloor>tileX\<rfloor>, \<lfloor>tileY\<rfloor>))"

definition tileToWorld :: "real \<Rightarrow> real \<Rightarrow> real \<times> real" where
  "tileToWorld tileX tileY =
     (let tileW = TILE_WIDTH; tileH = TILE_HEIGHT
      in ((tileX - tileY) * (tileW / 2), (tileX + tileY) * (tileH / 2)))"

text \<open>
  The constructor; it also seeds the shared generator with the world's seed (\<open>setSeed\<close>
  below).
\<close>

definition newWorld :: "int \<Rightarrow> int \<Rightarrow> int \<Rightarrow> int \<Rightarrow> WorldState" where
  "newWorld w h ts sd =
     \<lparr>width = w, height = h, tileSize = ts,
      tiles = replicate (nat h) (replicate (nat w) \<lparr>type = EMPTY, building = None\<rparr>),
      seed = sd\<rparr>"

definition getTile :: "WorldState \<Rightarrow> int \<Rightarrow> int \<Rightarrow> Tile option" where
  "getTile w x y =
     (if x < 0 \<or> x \<ge> width w \<or> y < 0 \<or> y \<ge> height w then None
      else Some (tiles w ! nat y ! nat x))"

text \<open>The assignment \<open>tiles[y][x] = tile\<close>, also the effect of mutating that tile in place.\<close>

definition writeTile :: "WorldState \<Rightarrow> int \<Rightarrow> int \<Rightarrow> Tile \<Rightarrow> WorldState" where
  "writeTile w x y tile = w\<lparr>tiles := (tiles w)[nat y := (tiles w ! nat y)[nat x := tile]]\<rparr>"

definition setTile :: "WorldState \<Rightarrow> int \<Rightarrow> int \<Rightarrow> Tile \<Rightarrow> bool \<times> WorldState" where
  "setTile w x y tile =
     (if x < 0 \<or> x \<ge> width w \<or> y < 0 \<or> y \<ge> height w then (False, w)
      else (True, writeTile w x y tile))"

definition setTileType :: "WorldState \<Rightarrow> int \<Rightarrow> int \<Rightarrow> TileType \<Rightarrow> bool \<times> WorldState" where
  "setTileType w x y ty =
     (case getTile w x y of
        None \<Rightarrow> (False, w)
      | Some tile \<Rightarrow>
          (let newTile = tile\<lparr>type := ty\<rparr>;
               newTile' = (if ty = RES \<or> ty = COM \<or> ty = IND
                           then newTile\<lparr>building := Some \<lparr>level = 0, unpoweredTime = 0\<rparr>\<rparr>
                           else newTile\<lparr>building := None\<rparr>)
           in setTile w x y newTile'))"

definition isValidPosition :: "WorldState \<Rightarrow> int \<Rightarrow> int \<Rightarrow> bool" where
  "isValidPosition w x y \<longleftrightarrow> x \<ge> 0 \<and> x < width w \<and> y \<ge> 0 \<and> y < height w"

text \<open>
  The nested loops \<open>for y in 0..height-1, for x in 0..width-1\<close> visit the positions in this
  order (row by row).
\<close>

definition gridPositions :: "WorldState \<Rightarrow> TilePosition list" where
  "gridPositions w = concat (map (\<lambda>y. map (\<lambda>x. (x, y)) [0..width w - 1]) [0..height w - 1])"

definition countTiles :: "WorldState \<Rightarrow> TileType \<Rightarrow> int" where
  "countTiles w ty =
     fold (\<lambda>p count. if type (tiles w ! nat (snd p) ! nat (fst p)) = ty then count + 1 else count)
          (gridPositions w) 0"

text \<open>
  The constructor builds \<open>height\<close> rows of \<open>width\<close> tiles, and no operation resizes the
  arrays; the index reasoning below is for worlds of this shape.
\<close>

definition wellFormed :: "WorldState \<Rightarrow> bool" where
  "wellFormed w \<longleftrightarrow>
     length (tiles w) = nat (height w) \<and> list_all (\<lambda>row. length row = nat (width w)) (tiles w)"

section \<open>Power Grid Engine (PowerSystem.ts)\<close>

record PowerGridState =
  capacity :: int
  demand :: int
  plants :: "TilePosition list"
  poweredTiles :: "TilePosition set"

definition POWER_PER_PLANT :: int where "POWER_PER_PLANT = 200"
definition POWER_RADIUS :: int where "POWER_RADIUS = 8"

definition POWER_CONSUMING_TILES :: "TileType list" where
  "POWER_CONSUMING_TILES = [RES, COM, IND, ROAD]"

definition manhattanDistance :: "int \<Rightarrow> int \<Rightarrow> int \<Rightarrow> int \<Rightarrow> int" where
  "manhattanDistance x1 y1 x2 y2 = \<bar>x1 - x2\<bar> + \<bar>y1 - y2\<bar>"

definition isPlantAt :: "WorldState \<Rightarrow> TilePosition \<Rightarrow> bool" where
  "isPlantAt w p =
     (case getTile w (fst p) (snd p) of None \<Rightarrow> False | Some tile \<Rightarrow> type tile = POWER_PLANT)"

definition findPowerPlants :: "WorldState \<Rightarrow> TilePosition list" where
  "findPowerPlants w = filter (isPlantAt w) (gridPositions w)"

fun isWithinPowerRange :: "TilePosition list \<Rightarrow> int \<Rightarrow> int \<Rightarrow> bool" where
  "isWithinPowerRange [] tileX tileY = False"
| "isWithinPowerRange (plant # rest) tileX tileY =
     (if manhattanDistance tileX tileY (fst plant) (snd plant) \<le> POWER_RADIUS then True
      else isWithinPowerRange rest tileX tileY)"

text \<open>
  The body of the scan in \<open>recalculate\<close>. The set of keys \<open>"x,y"\<close> is modelled as a set of
  integer pairs (the key string determines the pair).
\<close>

definition markTile :: "WorldState \<Rightarrow> TilePosition \<Rightarrow> PowerGridState \<Rightarrow> PowerGridState" where
  "markTile w p g =
     (case getTile w (fst p) (snd p) of
        None \<Rightarrow> g
      | Some tile \<Rightarrow>
          if type tile \<in> set POWER_CONSUMING_TILES then
            if isWithinPowerRange (plants g) (fst p) (snd p)
            then g\<lparr>poweredTiles := insert p (poweredTiles g), demand := demand g + 1\<rparr>
            else g
          else g)"

definition recalculate :: "WorldState \<Rightarrow> PowerGridState \<Rightarrow> PowerGridState" where
  "recalculate w g =
     (let g1 = g\<lparr>plants := findPowerPlants w\<rparr>;
          g2 = g1\<lparr>capacity := int (length (plants g1)) * POWER_PER_PLANT\<rparr>;
          g3 = g2\<lparr>poweredTiles := {}\<rparr>;
          g4 = g3\<lparr>demand := 0\<rparr>
      in fold (markTile w) (gridPositions w) g4)"

definition isPowered :: "PowerGridState \<Rightarrow> int \<Rightarrow> int \<Rightarrow> bool" where
  "isPowered g x y \<longleftrightarrow> (x, y) \<in> poweredTiles g"

definition getCapacity :: "PowerGridState \<Rightarrow> int" where
  "getCapacity g = capacity g"

definition getDemand :: "PowerGridState \<Rightarrow> int" where
  "getDemand g = demand g"

definition initialGridState :: PowerGridState where
  "initialGridState = \<lparr>capacity = 0, demand = 0, plants = [], poweredTiles = {}\<rparr>"

text \<open>
  The spec's wording of coverage: some \<open>POWER_PLANT\<close> tile of the grid lies within Manhattan
  distance 8 (equivalently, the nearest one does).
\<close>

definition nearPowerPlant :: "WorldState \<Rightarrow> int \<Rightarrow> int \<Rightarrow> bool" where
  "nearPowerPlant w x y =
     list_ex (\<lambda>p. isPlantAt w p \<and> manhattanDistance x y (fst p) (snd p) \<le> 8) (gridPositions w)"

definition consumesPower :: "WorldState \<Rightarrow> int \<Rightarrow> int \<Rightarrow> bool" where
  "consumesPower w x y =
     (case getTile w x y of None \<Rightarrow> False | Some tile \<Rightarrow> type tile \<in> {RES, COM, IND, ROAD})"

section \<open>Building data (BuildingData.ts)\<close>

record BuildingLevelStats =
  s_population :: int
  s_jobs :: int
  s_shoppers :: int

definition noStats :: BuildingLevelStats where
  "noStats = \<lparr>s_population = 0, s_jobs = 0, s_shoppers = 0\<rparr>"

text \<open>The table \<open>BUILDING_STATS\<close>; a missing type or level yields the all-zero entry.\<close>

definition getBuildingStats :: "TileType \<Rightarrow> int \<Rightarrow> BuildingLevelStats" where
  "getBuildingStats tileType lv =
     (case tileType of
        RES \<Rightarrow> (if lv = 1 then \<lparr>s_population = 10, s_jobs = 0, s_shoppers = 0\<rparr>
                else if lv = 2 then \<lparr>s_population = 25, s_jobs = 0, s_shoppers = 0\<rparr>
                else if lv = 3 then \<lparr>s_population = 50, s_jobs = 0, s_shoppers = 0\<rparr>
                else noStats)
      | COM \<Rightarrow> (if lv = 1 then \<lparr>s_population = 0, s_jobs = 0, s_shoppers = 15\<rparr>
                else if lv = 2 then \<lparr>s_population = 0, s_jobs = 0, s_shoppers = 35\<rparr>
                else if lv = 3 then \<lparr>s_population = 0, s_jobs = 0, s_shoppers = 70\<rparr>
                else noStats)
      | IND \<Rightarrow> (if lv = 1 then \<lparr>s_population = 0, s_jobs = 20, s_shoppers = 0\<rparr>
                else if lv = 2 then \<lparr>s_population = 0, s_jobs = 45, s_shoppers = 0\<rparr>
                else if lv = 3 then \<lparr>s_population = 0, s_jobs = 90, s_shoppers = 0\<rparr>
                else noStats)
      | _ \<Rightarrow> noStats)"

definition canHaveBuildings :: "TileType \<Rightarrow> bool" where
  "canHaveBuildings tileType \<longleftrightarrow> tileType = RES \<or> tileType = COM \<or> tileType = IND"

definition MAX_BUILDING_LEVEL :: int where "MAX_BUILDING_LEVEL = 3"

section \<open>Simulation and economy constants (types.ts)\<close>

definition TICK_INTERVAL :: real where "TICK_INTERVAL = 100"
definition GROWTH_CHANCE :: real where "GROWTH_CHANCE = 1 / 100"
definition UPGRADE_BASE_CHANCE :: real where "UPGRADE_BASE_CHANCE = 5 / 1000"
definition HAPPINESS_UPGRADE_MULTIPLIER :: real where "HAPPINESS_UPGRADE_MULTIPLIER = 2"
definition ABANDONMENT_TIME :: real where "ABANDONMENT_TIME = 30"
definition BASE_HAPPINESS :: real where "BASE_HAPPINESS = 5 / 10"
definition POWER_HAPPINESS_BONUS :: real where "POWER_HAPPINESS_BONUS = 2 / 10"
definition SPARE_CAPACITY_THRESHOLD :: real where "SPARE_CAPACITY_THRESHOLD = 1 / 10"
definition TAX_INTERVAL :: real where "TAX_INTERVAL = 3"

definition TAX_PER_POPULATION :: int where "TAX_PER_POPULATION = 2"
definition TAX_PER_SHOPPER :: int where "TAX_PER_SHOPPER = 1"
definition TAX_PER_JOB :: int where "TAX_PER_JOB = 1"
definition UPKEEP_PER_ROAD :: int where "UPKEEP_PER_ROAD = 1"
definition UPKEEP_PER_PLANT :: int where "UPKEEP_PER_PLANT = 5"
definition STARTING_BALANCE :: real where "STARTING_BALANCE = 1000"

section \<open>Economy Engine (EconomySystem.ts)\<close>

text \<open>
  JavaScript numbers are modelled by exact reals. The balance can also be \<open>NaN\<close> (a
  corrupted save), which is the value \<open>None\<close>; adding to \<open>NaN\<close> gives \<open>NaN\<close>. The
  elapsed time \<open>tickCount * 0.1\<close> is exact in doubles at every multiple of 10 ticks, and the
  quotient \<open>(capacity - demand) / capacity\<close> compares with 0.1 as the exact quotient does
  for any capacity a grid can have.
\<close>

record CityStats =
  balance :: "real option"
  population :: int
  jobs :: int
  shoppers :: int
  happiness :: real

record EconomySystem =
  cityStats :: CityStats
  lastTaxTime :: real

definition newEconomySystem :: EconomySystem where
  "newEconomySystem =
     \<lparr>cityStats = \<lparr>balance = Some STARTING_BALANCE, population = 0, jobs = 0, shoppers = 0,
                    happiness = BASE_HAPPINESS\<rparr>,
      lastTaxTime = 0\<rparr>"

definition calculateHappiness :: "PowerGridState \<Rightarrow> CityStats \<Rightarrow> CityStats" where
  "calculateHappiness g cs =
     (let cap = getCapacity g; dem = getDemand g;
          h0 = BASE_HAPPINESS;
          h1 = (if cap > 0 \<and> dem > 0 then
                  (let spareCapacity = real_of_int (cap - dem) / real_of_int cap
                   in if spareCapacity \<ge> SPARE_CAPACITY_THRESHOLD
                      then h0 + POWER_HAPPINESS_BONUS else h0)
                else h0)
      in cs\<lparr>happiness := max 0 (min 1 h1)\<rparr>)"

definition addTileStats :: "WorldState \<Rightarrow> TilePosition \<Rightarrow> BuildingLevelStats \<Rightarrow> BuildingLevelStats"
  where
  "addTileStats w p acc =
     (case getTile w (fst p) (snd p) of
        None \<Rightarrow> acc
      | Some tile \<Rightarrow>
          if \<not> canHaveBuildings (type tile) then acc
          else (case building tile of
                  None \<Rightarrow> acc
                | Some b \<Rightarrow>
                    (let stats = getBuildingStats (type tile) (level b)
                     in \<lparr>s_population = s_population acc + s_population stats,
                         s_jobs = s_jobs acc + s_jobs stats,
                         s_shoppers = s_shoppers acc + s_shoppers stats\<rparr>)))"

definition calculateStats :: "WorldState \<Rightarrow> PowerGridState \<Rightarrow> CityStats \<Rightarrow> CityStats" where
  "calculateStats w g cs =
     (let total = fold (addTileStats w) (gridPositions w) noStats;
          cs1 = cs\<lparr>population := s_population total, jobs := s_jobs total,
                   shoppers := s_shoppers total\<rparr>
      in calculateHappiness g cs1)"

definition collectTaxes :: "WorldState \<Rightarrow> CityStats \<Rightarrow> CityStats" where
  "collectTaxes w cs =
     (let income = population cs * TAX_PER_POPULATION + shoppers cs * TAX_PER_SHOPPER
                   + jobs cs * TAX_PER_JOB;
          roadCount = countTiles w ROAD;
          plantCount = countTiles w POWER_PLANT;
          upkeep = roadCount * UPKEEP_PER_ROAD + plantCount * UPKEEP_PER_PLANT;
          netIncome = income - upkeep;
          bal = (case balance cs of None \<Rightarrow> None | Some b \<Rightarrow> Some (b + real_of_int netIncome))
      in cs\<lparr>balance := (if bal = None then Some 0 else bal)\<rparr>)"

definition onTick :: "WorldState \<Rightarrow> PowerGridState \<Rightarrow> nat \<Rightarrow> EconomySystem \<Rightarrow> EconomySystem"
  where
  "onTick w g tickCount es =
     (let cs = calculateStats w g (cityStats es);
          elapsedTime = real tickCount * (TICK_INTERVAL / 1000)
      in if elapsedTime - lastTaxTime es \<ge> TAX_INTERVAL
         then es\<lparr>cityStats := collectTaxes w cs, lastTaxTime := elapsedTime\<rparr>
         else es\<lparr>cityStats := cs\<rparr>)"

text \<open>
  The scheduler emits the ticks numbered 1, 2, 3, ...; \<open>economyTicks w g n\<close> is the economy
  listener run on the first \<open>n\<close> of them over an unchanged grid.
\<close>

fun economyTicks :: "WorldState \<Rightarrow> PowerGridState \<Rightarrow> nat \<Rightarrow> EconomySystem \<Rightarrow> EconomySystem"
  where
  "economyTicks w g 0 es = es"
| "economyTicks w g (Suc n) es = onTick w g (Suc n) (economyTicks w g n es)"

text \<open>The spec's wording of the happiness rule, with no guard on capacity or demand.\<close>

definition specHappiness :: "int \<Rightarrow> int \<Rightarrow> real" where
  "specHappiness cap dem =
     max 0 (min 1 (if real_of_int (cap - dem) \<ge> (10 / 100) * real_of_int cap
                   then 5 / 10 + 2 / 10 else 5 / 10))"

text \<open>
  The spec's wording of one tax collection: \<open>income - upkeep\<close>, with the population,
  shoppers and jobs that the per-tick stat recompute yields for the grid.
\<close>

definition netIncome :: "WorldState \<Rightarrow> PowerGridState \<Rightarrow> CityStats \<Rightarrow> int" where
  "netIncome w g cs =
     (let cs' = calculateStats w g cs
      in (population cs' * 2 + shoppers cs' * 1 + jobs cs' * 1)
         - (countTiles w ROAD * 1 + countTiles w POWER_PLANT * 5))"

definition plantOnly :: WorldState where
  "plantOnly = \<lparr>width = 1, height = 1, tileSize = 32,
     tiles = [[\<lparr>type = POWER_PLANT, building = None\<rparr>]], seed = 0\<rparr>"

definition exampleTown :: WorldState where
  "exampleTown = \<lparr>width = 2, height = 1, tileSize = 32,
     tiles = [[\<lparr>type = RES, building = Some \<lparr>level = 1, unpoweredTime = 0\<rparr>\<rparr>,
               \<lparr>type = ROAD, building = None\<rparr>]], seed = 0\<rparr>"

section \<open>Tick Scheduler (SimulationSystem.ts)\<close>

text \<open>
  Times are JavaScript numbers, modelled by exact reals. \<open>tick\<close> keeps the counter; the
  listeners it notifies are modelled separately.
\<close>

record SimulationSystem =
  isRunning :: bool
  tickCount :: nat
  accumulator :: real
  lastTime :: real

definition newSimulationSystem :: SimulationSystem where
  "newSimulationSystem = \<lparr>isRunning = True, tickCount = 0, accumulator = 0, lastTime = 0\<rparr>"

definition tick :: "SimulationSystem \<Rightarrow> SimulationSystem" where
  "tick s = s\<lparr>tickCount := tickCount s + 1\<rparr>"

function fireTicks :: "SimulationSystem \<Rightarrow> SimulationSystem" where
  "fireTicks s =
     (if accumulator s \<ge> TICK_INTERVAL / 1000
      then fireTicks ((tick s)\<lparr>accumulator := accumulator (tick s) - TICK_INTERVAL / 1000\<rparr>)
      else s)"
  by pat_completeness auto
termination
proof (relation "measure (\<lambda>s. nat \<lfloor>accumulator s * 10\<rfloor>)")
  show "wf (measure (\<lambda>s. nat \<lfloor>accumulator s * 10\<rfloor>))" by simp
next
  fix s :: SimulationSystem
  assume a: "TICK_INTERVAL / 1000 \<le> accumulator s"
  then have "1 \<le> accumulator s * 10" by (simp add: TICK_INTERVAL_def)
  then have "1 \<le> \<lfloor>accumulator s * 10\<rfloor>" by linarith
  moreover have "\<lfloor>(accumulator s - TICK_INTERVAL / 1000) * 10\<rfloor> = \<lfloor>accumulator s * 10\<rfloor> - 1"
    by (simp add: TICK_INTERVAL_def algebra_simps)
  ultimately show "((tick s)\<lparr>accumulator := accumulator (tick s) - TICK_INTERVAL / 1000\<rparr>, s)
        \<in> measure (\<lambda>s. nat \<lfloor>accumulator s * 10\<rfloor>)"
    by (simp add: tick_def)
qed

declare fireTicks.simps [simp del]

definition update :: "real \<Rightarrow> SimulationSystem \<Rightarrow> SimulationSystem" where
  "update time s =
     (if \<not> isRunning s then s
      else if lastTime s = 0 then s\<lparr>lastTime := time\<rparr>
      else (let deltaTime = (time - lastTime s) / 1000;
                s1 = s\<lparr>lastTime := time\<rparr>;
                s2 = s1\<lparr>accumulator := accumulator s1 + deltaTime\<rparr>
            in fireTicks s2))"

definition toggleRunning :: "SimulationSystem \<Rightarrow> SimulationSystem" where
  "toggleRunning s = s\<lparr>isRunning := \<not> isRunning s\<rparr>"

text \<open>
  A pause scenario: the scheduler is initialised at time 1000 ms, ticks once at 1100 ms, is
  paused, sees one more frame at \<open>1100 + p\<close> while paused, is resumed, and is updated 50 ms
  later. The result is the number of ticks fired by that first update after the resume.
\<close>

definition ticksAfterPause :: "real \<Rightarrow> nat" where
  "ticksAfterPause p =
     (let s0 = update 1100 (update 1000 newSimulationSystem);
          s1 = toggleRunning (update (1100 + p) (toggleRunning s0))
      in tickCount (update (1100 + p + 50) s1) - tickCount s1)"

section \<open>Random numbers (RNG.ts)\<close>

text \<open>
  The generator state is a JavaScript number holding an integer. \<open>a * current + c\<close> is
  computed in double precision: each of the two operations is rounded to 53 significant bits
  (to nearest, ties to even), which \<open>roundDouble\<close> does on integers; it changes nothing
  below \<open>2 ^ 53\<close>. The operator \<open>%\<close> is the truncated remainder \<open>smod\<close>, and the
  division by \<open>2 ^ 32\<close> is exact. A seed is \<open>Date.now()\<close> or the number given to the world.
\<close>

record RNG =
  rng_seed :: int
  current :: int

function bitLength :: "int \<Rightarrow> nat" where
  "bitLength n = (if n \<le> 0 then 0 else Suc (bitLength (n div 2)))"
  by pat_completeness auto
termination
  by (relation "measure nat") auto

declare bitLength.simps [simp del]

definition roundMagnitude :: "int \<Rightarrow> int" where
  "roundMagnitude n =
     (if n < 2 ^ 53 then n
      else (let e = bitLength n - 53;
                q = n div 2 ^ e;
                r = n mod 2 ^ e;
                half = 2 ^ (e - 1)
            in (if r > half \<or> (r = half \<and> odd q) then q + 1 else q) * 2 ^ e))"

definition roundDouble :: "int \<Rightarrow> int" where
  "roundDouble n = sgn n * roundMagnitude \<bar>n\<bar>"

definition setSeed :: "int \<Rightarrow> RNG \<Rightarrow> RNG" where
  "setSeed sd r = r\<lparr>rng_seed := sd, current := sd\<rparr>"

definition RNG_next :: "RNG \<Rightarrow> real \<times> RNG" where
  "RNG_next r =
     (let a = 1664525; c = 1013904223; m = 2 ^ 32;
          cur = roundDouble (roundDouble (a * current r) + c) smod m
      in (real_of_int cur / real_of_int m, r\<lparr>current := cur\<rparr>))"

section \<open>Growth Engine (GrowthSystem.ts)\<close>

text \<open>
  \<open>growTile\<close> is the body of the loop for one zoned tile: it returns the tile as mutated,
  the generator, and whether the tile was pushed on \<open>changedTiles\<close>. The comparisons of a
  draw \<open>k / 2 ^ 32\<close> with 0.01 and 0.005 come out the same over the reals as over doubles,
  since no such quotient lies between a threshold and its nearest double. The unpowered
  timer is a real here; the double sum \<open>t + 0.1\<close> is never below 30 when the real sum is at
  least 30, and can differ from it only within an ulp of that boundary.
\<close>

definition deltaTime :: real where "deltaTime = TICK_INTERVAL / 1000"

definition repairBuilding :: "Tile \<Rightarrow> BuildingData" where
  "repairBuilding tile =
     (case building tile of None \<Rightarrow> \<lparr>level = 0, unpoweredTime = 0\<rparr> | Some b \<Rightarrow> b)"

definition growTile :: "bool \<Rightarrow> real \<Rightarrow> Tile \<Rightarrow> RNG \<Rightarrow> Tile \<times> RNG \<times> bool" where
  "growTile powered hap tile rng =
     (let b0 = repairBuilding tile;
          b1 = (if \<not> powered then b0\<lparr>unpoweredTime := unpoweredTime b0 + deltaTime\<rparr>
                else b0\<lparr>unpoweredTime := 0\<rparr>)
      in if unpoweredTime b1 \<ge> ABANDONMENT_TIME \<and> level b1 > 0 then
           (tile\<lparr>building := Some (b1\<lparr>level := level b1 - 1, unpoweredTime := 0\<rparr>)\<rparr>, rng, True)
         else if \<not> powered then (tile\<lparr>building := Some b1\<rparr>, rng, False)
         else if level b1 = 0 then
           (let (u, rng') = RNG_next rng
            in if u < GROWTH_CHANCE
               then (tile\<lparr>building := Some (b1\<lparr>level := 1\<rparr>)\<rparr>, rng', True)
               else (tile\<lparr>building := Some b1\<rparr>, rng', False))
         else if level b1 < MAX_BUILDING_LEVEL then
           (let upgradeChance = UPGRADE_BASE_CHANCE
                  * (if hap \<ge> 7 / 10 then HAPPINESS_UPGRADE_MULTIPLIER else 1);
                (u, rng') = RNG_next rng
            in if u < upgradeChance
               then (tile\<lparr>building := Some (b1\<lparr>level := level b1 + 1\<rparr>)\<rparr>, rng', True)
               else (tile\<lparr>building := Some b1\<rparr>, rng', False))
         else (tile\<lparr>building := Some b1\<rparr>, rng, False))"

record GrowthState =
  g_world :: WorldState
  g_rng :: RNG
  changedTiles :: "TilePosition list"

definition growthStep :: "PowerGridState \<Rightarrow> real \<Rightarrow> TilePosition \<Rightarrow> GrowthState \<Rightarrow> GrowthState"
  where
  "growthStep pg hap p s =
     (case getTile (g_world s) (fst p) (snd p) of
        None \<Rightarrow> s
      | Some tile \<Rightarrow>
          if \<not> canHaveBuildings (type tile) then s
          else (let powered = isPowered pg (fst p) (snd p);
                    (tile', rng', changed) = growTile powered hap tile (g_rng s)
                in \<lparr>g_world = writeTile (g_world s) (fst p) (snd p) tile',
                    g_rng = rng',
                    changedTiles = (if changed then changedTiles s @ [p] else changedTiles s)\<rparr>))"

definition processGrowth :: "PowerGridState \<Rightarrow> real \<Rightarrow> WorldState \<Rightarrow> RNG \<Rightarrow> GrowthState" where
  "processGrowth pg hap w rng =
     fold (growthStep pg hap) (gridPositions w) \<lparr>g_world = w, g_rng = rng, changedTiles = []\<rparr>"


text \<open>
  A growth engine holds its grid, the power system and the city statistics it was given at
  construction. \<open>MainScene\<close> hands it \<open>economySystem.getCityStats()\<close>, which is a copy, so the
  happiness an engine reads is the one it was constructed with.
\<close>

record GrowthSystem =
  worldState :: WorldState
  powerSystem :: PowerGridState
  cityHappiness :: real

text \<open>
  The generator \<open>rng\<close> and the event bus are module-level singletons: one generator serves
  every engine of the process, and every engine constructed subscribes its bound \<open>onTick\<close> to
  \<open>simulation:tick\<close>, in construction order. A \<open>WorldState\<close> constructor re-seeds the shared
  generator. \<open>destroy\<close> calls \<open>EventBus.off\<close> with the method \<open>this.onTick\<close>, which is not the
  bound function that was subscribed, so \<open>indexOf\<close> finds nothing and the engine stays
  subscribed.
\<close>

record GrowthProcess =
  shared_rng :: RNG
  tickListeners :: "GrowthSystem list"

definition loadModule :: "int \<Rightarrow> GrowthProcess" where
  "loadModule now = \<lparr>shared_rng = \<lparr>rng_seed = now, current = now\<rparr>, tickListeners = []\<rparr>"

definition seedWorld :: "int \<Rightarrow> GrowthProcess \<Rightarrow> GrowthProcess" where
  "seedWorld sd P = P\<lparr>shared_rng := setSeed sd (shared_rng P)\<rparr>"

definition newGrowthSystem :: "GrowthSystem \<Rightarrow> GrowthProcess \<Rightarrow> GrowthProcess" where
  "newGrowthSystem e P = P\<lparr>tickListeners := tickListeners P @ [e]\<rparr>"

definition destroyGrowthSystem :: "GrowthSystem \<Rightarrow> GrowthProcess \<Rightarrow> GrowthProcess" where
  "destroyGrowthSystem e P = P"

definition GrowthSystem_onTick :: "GrowthSystem \<Rightarrow> RNG \<Rightarrow> GrowthSystem \<times> RNG \<times> TilePosition list"
  where
  "GrowthSystem_onTick e r =
     (let s = processGrowth (powerSystem e) (cityHappiness e) (worldState e) r
      in (e\<lparr>worldState := g_world s\<rparr>, g_rng s, changedTiles s))"

text \<open>
  One \<open>simulation:tick\<close>: the subscribed engines run one after the other on the shared
  generator. The result lists, engine by engine, the batch of tiles whose level changed.
  The other listener of the tick, the economy, neither draws nor writes tiles.
\<close>

fun emitTick :: "GrowthSystem list \<Rightarrow> RNG \<Rightarrow> GrowthSystem list \<times> RNG \<times> TilePosition list list"
  where
  "emitTick [] r = ([], r, [])"
| "emitTick (e # es) r =
     (let (e', r1, changed) = GrowthSystem_onTick e r;
          (es', r2, rest) = emitTick es r1
      in (e' # es', r2, changed # rest))"

text \<open>\<open>growthTicks n\<close> replays \<open>n\<close> ticks and returns the process and, tick by tick, the
  batches of every engine.\<close>

fun growthTicks :: "nat \<Rightarrow> GrowthProcess \<Rightarrow> GrowthProcess \<times> TilePosition list list list" where
  "growthTicks 0 P = (P, [])"
| "growthTicks (Suc n) P =
     (let (es, r, batches) = emitTick (tickListeners P) (shared_rng P);
          (P', later) = growthTicks n \<lparr>shared_rng = r, tickListeners = es\<rparr>
      in (P', batches # later))"

definition sameGrid :: "WorldState \<Rightarrow> WorldState \<Rightarrow> bool" where
  "sameGrid w1 w2 \<longleftrightarrow> width w1 = width w2 \<and> height w1 = height w2 \<and> tiles w1 = tiles w2"

definition abandonedLot :: WorldState where
  "abandonedLot = \<lparr>width = 1, height = 1, tileSize = 32,
     tiles = [[\<lparr>type = RES, building = Some \<lparr>level = 2, unpoweredTime = 2995 / 100\<rparr>\<rparr>]],
     seed = 7\<rparr>"

definition bareZone :: WorldState where
  "bareZone = \<lparr>width = 1, height = 1, tileSize = 32,
     tiles = [[\<lparr>type = COM, building = None\<rparr>]], seed = 7\<rparr>"

definition sameGrowth :: "GrowthState \<Rightarrow> GrowthState \<Rightarrow> bool" where
  "sameGrowth s1 s2 \<longleftrightarrow>
     sameGrid (g_world s1) (g_world s2) \<and> current (g_rng s1) = current (g_rng s2)
     \<and> changedTiles s1 = changedTiles s2"

text \<open>Engines that agree on what a growth pass reads.\<close>

definition sameEngine :: "GrowthSystem \<Rightarrow> GrowthSystem \<Rightarrow> bool" where
  "sameEngine e1 e2 \<longleftrightarrow>
     sameGrid (worldState e1) (worldState e2)
     \<and> poweredTiles (powerSystem e1) = poweredTiles (powerSystem e2)
     \<and> cityHappiness e1 = cityHappiness e2"

definition builtLot :: WorldState where
  "builtLot = \<lparr>width = 2, height = 1, tileSize = 32,
     tiles = [[\<lparr>type = POWER_PLANT, building = None\<rparr>,
               \<lparr>type = RES, building = Some \<lparr>level = 1, unpoweredTime = 0\<rparr>\<rparr>]],
     seed = 1985\<rparr>"

definition poweredLot :: WorldState where
  "poweredLot = \<lparr>width = 2, height = 1, tileSize = 32,
     tiles = [[\<lparr>type = POWER_PLANT, building = None\<rparr>,
               \<lparr>type = RES, building = Some \<lparr>level = 0, unpoweredTime = 0\<rparr>\<rparr>]],
     seed = 1972\<rparr>"

definition spawnedLot :: WorldState where
  "spawnedLot = poweredLot\<lparr>tiles := [[\<lparr>type = POWER_PLANT, building = None\<rparr>,
       \<lparr>type = RES, building = Some \<lparr>level = 1, unpoweredTime = 0\<rparr>\<rparr>]]\<rparr>"

definition upgradedLot :: WorldState where
  "upgradedLot = builtLot\<lparr>tiles := [[\<lparr>type = POWER_PLANT, building = None\<rparr>,
       \<lparr>type = RES, building = Some \<lparr>level = 2, unpoweredTime = 0\<rparr>\<rparr>]]\<rparr>"

definition lotEngine :: "real \<Rightarrow> GrowthSystem" where
  "lotEngine hap = \<lparr>worldState = poweredLot,
                     powerSystem = recalculate poweredLot initialGridState,
                     cityHappiness = hap\<rparr>"

definition builtEngine :: "real \<Rightarrow> GrowthSystem" where
  "builtEngine hap = \<lparr>worldState = builtLot,
                       powerSystem = recalculate builtLot initialGridState,
                       cityHappiness = hap\<rparr>"

text \<open>
  A process in which a world with seed 1972 and an engine on it are constructed, the engine
  is destroyed, and a second world with the same seed and the same tiles and a second engine
  are constructed.
\<close>

definition restartedProcess :: GrowthProcess where
  "restartedProcess =
     newGrowthSystem (lotEngine (5 / 10))
       (seedWorld 1972
         (destroyGrowthSystem (lotEngine (5 / 10))
           (newGrowthSystem (lotEngine (5 / 10)) (seedWorld 1972 (loadModule 0)))))"

text \<open>A process with one world of the given seed and one engine.\<close>

definition freshProcess :: "int \<Rightarrow> GrowthSystem \<Rightarrow> GrowthProcess" where
  "freshProcess sd e = newGrowthSystem e (seedWorld sd (loadModule 0))"

section \<open>Paint commands (PaintTileCommand.ts)\<close>

record PaintTileCommand =
  position :: TilePosition
  oldTile :: Tile
  newTile :: Tile

datatype Command = PaintTile PaintTileCommand | BatchPaint "PaintTileCommand list"

definition paintExecute :: "PaintTileCommand \<Rightarrow> WorldState \<Rightarrow> WorldState" where
  "paintExecute c w = snd (setTile w (fst (position c)) (snd (position c)) (newTile c))"

definition paintUndo :: "PaintTileCommand \<Rightarrow> WorldState \<Rightarrow> WorldState" where
  "paintUndo c w = snd (setTile w (fst (position c)) (snd (position c)) (oldTile c))"

definition batchExecute :: "PaintTileCommand list \<Rightarrow> WorldState \<Rightarrow> WorldState" where
  "batchExecute cs w = fold paintExecute cs w"

definition batchUndo :: "PaintTileCommand list \<Rightarrow> WorldState \<Rightarrow> WorldState" where
  "batchUndo cs w = fold paintUndo (rev cs) w"

fun commandExecute :: "Command \<Rightarrow> WorldState \<Rightarrow> WorldState" where
  "commandExecute (PaintTile c) w = paintExecute c w"
| "commandExecute (BatchPaint cs) w = batchExecute cs w"

fun commandUndo :: "Command \<Rightarrow> WorldState \<Rightarrow> WorldState" where
  "commandUndo (PaintTile c) w = paintUndo c w"
| "commandUndo (BatchPaint cs) w = batchUndo cs w"

section \<open>Command Log (CommandQueue.ts)\<close>

text \<open>
  The queue's methods act on the grid through the commands, so each takes and returns the
  pair of queue and grid. The cursor stays within \<open>-1 .. length history - 1\<close> from a new
  queue on, so \<open>history[currentIndex]\<close> is always an entry.
\<close>

record CommandQueue =
  history :: "Command list"
  currentIndex :: int
  maxHistory :: int

definition newCommandQueue :: CommandQueue where
  "newCommandQueue = \<lparr>history = [], currentIndex = -1, maxHistory = 100\<rparr>"

definition canUndo :: "CommandQueue \<Rightarrow> bool" where
  "canUndo q \<longleftrightarrow> currentIndex q \<ge> 0"

definition canRedo :: "CommandQueue \<Rightarrow> bool" where
  "canRedo q \<longleftrightarrow> currentIndex q < int (length (history q)) - 1"

definition queueExecute :: "Command \<Rightarrow> CommandQueue \<times> WorldState \<Rightarrow> CommandQueue \<times> WorldState"
  where
  "queueExecute command qw =
     (let q = fst qw; w = snd qw;
          h1 = (if currentIndex q < int (length (history q)) - 1
                then take (nat (currentIndex q + 1)) (history q) else history q);
          w' = commandExecute command w;
          h2 = h1 @ [command];
          i2 = currentIndex q + 1
      in if int (length h2) > maxHistory q
         then (q\<lparr>history := tl h2, currentIndex := i2 - 1\<rparr>, w')
         else (q\<lparr>history := h2, currentIndex := i2\<rparr>, w'))"

definition queueUndo :: "CommandQueue \<times> WorldState \<Rightarrow> bool \<times> CommandQueue \<times> WorldState" where
  "queueUndo qw =
     (let q = fst qw; w = snd qw
      in if \<not> canUndo q then (False, q, w)
         else (let command = history q ! nat (currentIndex q)
               in (True, q\<lparr>currentIndex := currentIndex q - 1\<rparr>, commandUndo command w)))"

definition queueRedo :: "CommandQueue \<times> WorldState \<Rightarrow> bool \<times> CommandQueue \<times> WorldState" where
  "queueRedo qw =
     (let q = fst qw; w = snd qw
      in if \<not> canRedo q then (False, q, w)
         else (let i = currentIndex q + 1;
                   command = history q ! nat i
               in (True, q\<lparr>currentIndex := i\<rparr>, commandExecute command w)))"

section \<open>Brush tool (BrushTool.ts)\<close>

datatype BrushType = BRUSH_ROAD | BRUSH_RES | BRUSH_COM | BRUSH_IND | BRUSH_POWER_PLANT | ERASER

fun BRUSH_TO_TILE :: "BrushType \<Rightarrow> TileType option" where
  "BRUSH_TO_TILE BRUSH_ROAD = Some ROAD"
| "BRUSH_TO_TILE BRUSH_RES = Some RES"
| "BRUSH_TO_TILE BRUSH_COM = Some COM"
| "BRUSH_TO_TILE BRUSH_IND = Some IND"
| "BRUSH_TO_TILE BRUSH_POWER_PLANT = Some POWER_PLANT"
| "BRUSH_TO_TILE ERASER = Some EMPTY"

record BrushTool =
  brushType :: BrushType
  isPainting :: bool
  paintedTiles :: "TilePosition set"
  currentBatch :: "PaintTileCommand list"

definition newBrushTool :: "BrushType \<Rightarrow> BrushTool" where
  "newBrushTool bt = \<lparr>brushType = bt, isPainting = False, paintedTiles = {}, currentBatch = []\<rparr>"

definition startPaint :: "BrushTool \<Rightarrow> BrushTool" where
  "startPaint b = b\<lparr>isPainting := True, paintedTiles := {}, currentBatch := []\<rparr>"

definition paint :: "TilePosition \<Rightarrow> BrushTool \<times> WorldState \<Rightarrow> bool \<times> BrushTool \<times> WorldState" where
  "paint tilePos bw =
     (let b = fst bw; w = snd bw
      in if \<not> isPainting b then (False, b, w)
         else if \<not> isValidPosition w (fst tilePos) (snd tilePos) then (False, b, w)
         else if tilePos \<in> paintedTiles b then (False, b, w)
         else (case BRUSH_TO_TILE (brushType b) of
                 None \<Rightarrow> (False, b, w)
               | Some newTileType \<Rightarrow>
                   (case getTile w (fst tilePos) (snd tilePos) of
                      None \<Rightarrow> (False, b, w)
                    | Some old \<Rightarrow>
                        if type old = newTileType then (False, b, w)
                        else (let new = old\<lparr>type := newTileType\<rparr>;
                                  command = \<lparr>position = tilePos, oldTile = old, newTile = new\<rparr>
                              in (True,
                                  b\<lparr>currentBatch := currentBatch b @ [command],
                                    paintedTiles := insert tilePos (paintedTiles b)\<rparr>,
                                  paintExecute command w)))))"

definition stopPaint :: "BrushTool \<times> CommandQueue \<times> WorldState \<Rightarrow> BrushTool \<times> CommandQueue \<times> WorldState"
  where
  "stopPaint bqw =
     (let b = fst bqw; q = fst (snd bqw); w = snd (snd bqw)
      in if \<not> isPainting b then (b, q, w)
         else (let b1 = b\<lparr>isPainting := False\<rparr>;
                   qw = (if currentBatch b1 \<noteq> []
                         then queueExecute (BatchPaint (currentBatch b1))
                                (q, fold paintUndo (rev (currentBatch b1)) w)
                         else (q, w))
               in (b1\<lparr>currentBatch := [], paintedTiles := {}\<rparr>, fst qw, snd qw)))"

definition cancel :: "BrushTool \<times> WorldState \<Rightarrow> BrushTool \<times> WorldState" where
  "cancel bw =
     (let b = fst bw; w = snd bw
      in (b\<lparr>isPainting := False, currentBatch := [], paintedTiles := {}\<rparr>,
          fold paintUndo (rev (currentBatch b)) w))"

definition setBrushType :: "BrushType \<Rightarrow> BrushTool \<Rightarrow> BrushTool" where
  "setBrushType bt b = b\<lparr>brushType := bt\<rparr>"

section \<open>Editing session (MainScene.ts)\<close>

text \<open>
  The scene owns one brush tool, one command log and the grid. Its handlers call the brush
  and the log one call at a time: mouse down is \<open>startPaint\<close> followed by a \<open>paint\<close>, each
  pointer move over a new tile is a \<open>paint\<close>, mouse up is \<open>stopPaint\<close>, Ctrl+Z and Ctrl+Y are
  \<open>undo\<close> and \<open>redo\<close>; the key handlers do not look at \<open>isPainting\<close>, so they can fall
  between the calls of a stroke. \<open>Exec\<close> is \<open>CommandQueue.execute\<close> called with any command.
\<close>

record EditState =
  brush :: BrushTool
  queue :: CommandQueue
  world :: WorldState

definition newEditState :: "WorldState \<Rightarrow> EditState" where
  "newEditState w = \<lparr>brush = newBrushTool BRUSH_ROAD, queue = newCommandQueue, world = w\<rparr>"

datatype Action =
  Exec Command | SetBrushType BrushType | StartPaint | Paint TilePosition | StopPaint | Cancel
  | Undo | Redo

fun perform :: "Action \<Rightarrow> EditState \<Rightarrow> EditState" where
  "perform (Exec c) st =
     (let qw = queueExecute c (queue st, world st) in st\<lparr>queue := fst qw, world := snd qw\<rparr>)"
| "perform (SetBrushType bt) st = st\<lparr>brush := setBrushType bt (brush st)\<rparr>"
| "perform StartPaint st = st\<lparr>brush := startPaint (brush st)\<rparr>"
| "perform (Paint p) st =
     (let r = paint p (brush st, world st) in st\<lparr>brush := fst (snd r), world := snd (snd r)\<rparr>)"
| "perform StopPaint st =
     (let r = stopPaint (brush st, queue st, world st)
      in \<lparr>brush = fst r, queue = fst (snd r), world = snd (snd r)\<rparr>)"
| "perform Cancel st =
     (let r = cancel (brush st, world st) in st\<lparr>brush := fst r, world := snd r\<rparr>)"
| "perform Undo st =
     (let r = snd (queueUndo (queue st, world st)) in st\<lparr>queue := fst r, world := snd r\<rparr>)"
| "perform Redo st =
     (let r = snd (queueRedo (queue st, world st)) in st\<lparr>queue := fst r, world := snd r\<rparr>)"

definition undoThenRedo :: "EditState \<Rightarrow> EditState" where
  "undoThenRedo st = perform Redo (perform Undo st)"

section \<open>Histories of paint actions\<close>

text \<open>
  A paint command records the tile it replaces: \<open>captures w c\<close> says that the recorded old
  tile of \<open>c\<close> is the tile on the grid \<open>w\<close> on which \<open>c\<close> is executed (for a batch, each
  member on the grid its predecessors leave).
\<close>

definition captures1 :: "WorldState \<Rightarrow> PaintTileCommand \<Rightarrow> bool" where
  "captures1 w c \<longleftrightarrow> getTile w (fst (position c)) (snd (position c)) = Some (oldTile c)"

fun capturesAll :: "WorldState \<Rightarrow> PaintTileCommand list \<Rightarrow> bool" where
  "capturesAll w [] = True"
| "capturesAll w (c # cs) = (captures1 w c \<and> capturesAll (paintExecute c w) cs)"

fun captures :: "WorldState \<Rightarrow> Command \<Rightarrow> bool" where
  "captures w (PaintTile c) = captures1 w c"
| "captures w (BatchPaint cs) = capturesAll w cs"

text \<open>
  A run is admissible when it keeps the log and the strokes apart: a command handed to
  \<open>Exec\<close> records the tile it replaces, and \<open>Exec\<close>, \<open>StartPaint\<close>, \<open>Undo\<close> and \<open>Redo\<close>
  happen only while the brush holds no painted tile of an unfinished stroke.
\<close>

fun admissible :: "Action list \<Rightarrow> EditState \<Rightarrow> bool" where
  "admissible [] st = True"
| "admissible (Exec c # as) st =
     (currentBatch (brush st) = [] \<and> captures (world st) c \<and> admissible as (perform (Exec c) st))"
| "admissible (StartPaint # as) st =
     (currentBatch (brush st) = [] \<and> admissible as (perform StartPaint st))"
| "admissible (Undo # as) st =
     (currentBatch (brush st) = [] \<and> admissible as (perform Undo st))"
| "admissible (Redo # as) st =
     (currentBatch (brush st) = [] \<and> admissible as (perform Redo st))"
| "admissible (a # as) st = admissible as (perform a st)"

text \<open>
  The history around the cursor: every entry before it can be undone and redone back to
  the present grid, every entry after it redone and undone.
\<close>

fun undoable :: "WorldState \<Rightarrow> Command list \<Rightarrow> bool" where
  "undoable w [] = True"
| "undoable w (c # cs) = (commandExecute c (commandUndo c w) = w \<and> undoable (commandUndo c w) cs)"

fun redoable :: "WorldState \<Rightarrow> Command list \<Rightarrow> bool" where
  "redoable w [] = True"
| "redoable w (c # cs) = (commandUndo c (commandExecute c w) = w \<and> redoable (commandExecute c w) cs)"

definition consistent :: "CommandQueue \<times> WorldState \<Rightarrow> bool" where
  "consistent qw \<longleftrightarrow>
     (let q = fst qw; w = snd qw
      in - 1 \<le> currentIndex q \<and> currentIndex q < int (length (history q))
         \<and> undoable w (rev (take (nat (currentIndex q + 1)) (history q)))
         \<and> redoable w (drop (nat (currentIndex q + 1)) (history q)))"

definition twoByOne :: WorldState where
  "twoByOne = newWorld 2 1 32 0"

text \<open>
  While the brush holds a batch, the grid is that batch applied to the grid the stroke
  started from, and each command of the batch recorded the tile it replaced; the log is
  consistent with the grid the stroke started from.
\<close>

definition strokeInv :: "WorldState \<Rightarrow> BrushTool \<times> WorldState \<Rightarrow> bool" where
  "strokeInv w0 bw \<longleftrightarrow>
     snd bw = batchExecute (currentBatch (fst bw)) w0 \<and> capturesAll w0 (currentBatch (fst bw))"

definition strokeBase :: "EditState \<Rightarrow> WorldState" where
  "strokeBase st = batchUndo (currentBatch (brush st)) (world st)"

definition editInv :: "EditState \<Rightarrow> bool" where
  "editInv st \<longleftrightarrow>
     consistent (queue st, strokeBase st) \<and> strokeInv (strokeBase st) (brush st, world st)"

definition exampleActions :: "Action list" where
  "exampleActions =
     [SetBrushType BRUSH_RES, StartPaint, Paint (0, 0), Paint (1, 0), Paint (0, 0), StopPaint,
      Exec (PaintTile \<lparr>position = (1, 0), oldTile = \<lparr>type = RES, building = None\<rparr>,
                        newTile = \<lparr>type = ROAD, building = None\<rparr>\<rparr>),
      SetBrushType ERASER, StartPaint, Paint (0, 0), Paint (1, 0), StopPaint,
      Undo]"

definition oneByOne :: WorldState where
  "oneByOne = newWorld 1 1 32 0"

text \<open>The same command object executed twice through the log, then one undo.\<close>

definition replayedCommandRun :: "Action list" where
  "replayedCommandRun =
     (let A = PaintTile \<lparr>position = (0, 0), oldTile = \<lparr>type = EMPTY, building = None\<rparr>,
                         newTile = \<lparr>type = ROAD, building = None\<rparr>\<rparr>
      in [Exec A, Exec A, Undo])"

text \<open>
  A residential stroke, a commercial stroke, then a road stroke with Ctrl+Z pressed between
  its paint and the mouse up, and one more Ctrl+Z.
\<close>

definition midStrokeUndoRun :: "Action list" where
  "midStrokeUndoRun =
     [SetBrushType BRUSH_RES, StartPaint, Paint (0, 0), StopPaint,
      SetBrushType BRUSH_COM, StartPaint, Paint (0, 0), StopPaint,
      SetBrushType BRUSH_ROAD, StartPaint, Paint (0, 0), Undo, StopPaint,
      Undo]"

text \<open>
  A residential stroke, then a commercial stroke whose mouse down arrives twice (a second
  pointer) before the mouse up.
\<close>

definition restartedStrokeRun :: "Action list" where
  "restartedStrokeRun =
     [SetBrushType BRUSH_RES, StartPaint, Paint (0, 0), StopPaint,
      SetBrushType BRUSH_COM, StartPaint, Paint (0, 0), StartPaint, StopPaint]"

definition exampleRow :: WorldState where
  "exampleRow = \<lparr>width = 3, height = 1, tileSize = 32,
     tiles = [[\<lparr>type = POWER_PLANT, building = None\<rparr>, \<lparr>type = EMPTY, building = None\<rparr>,
               \<lparr>type = RES, building = None\<rparr>]], seed = 0\<rparr>"

section \<open>Coordinate transforms\<close>

text \<open>
  C7. For every integer tile coordinate pair (in particular every in-bounds one), mapping the
  tile to world coordinates with \<open>tileToWorld\<close> and back with \<open>worldToTile\<close> returns the
  same pair.
\<close>

theorem worldToTile_tileToWorld:
  "worldToTile (fst (tileToWorld (of_int tx) (of_int ty)))
               (snd (tileToWorld (of_int tx) (of_int ty))) = (tx, ty)"
proof -
  have fx: "(((of_int tx - of_int ty) * (64 / 2)) / (64 / 2)
             + ((of_int tx + of_int ty) * (32 / 2)) / (32 / 2)) / 2 = (of_int tx :: real)"
    by (simp add: diff_divide_distrib add_divide_distrib)
  have fy: "(((of_int tx + of_int ty) * (32 / 2)) / (32 / 2)
             - ((of_int tx - of_int ty) * (64 / 2)) / (64 / 2)) / 2 = (of_int ty :: real)"
    by (simp add: diff_divide_distrib add_divide_distrib)
  show ?thesis
    unfolding worldToTile_def tileToWorld_def TILE_WIDTH_def TILE_HEIGHT_def Let_def
      fst_conv snd_conv fx fy floor_of_int ..
qed

section \<open>Power coverage\<close>

lemma set_gridPositions:
  "set (gridPositions w) = {(x, y). 0 \<le> x \<and> x < width w \<and> 0 \<le> y \<and> y < height w}"
  by (auto simp: gridPositions_def)

lemma isWithinPowerRange_iff:
  "isWithinPowerRange ps x y \<longleftrightarrow>
     (\<exists>p \<in> set ps. manhattanDistance x y (fst p) (snd p) \<le> POWER_RADIUS)"
  by (induction ps) auto

lemma fold_markTile_plants: "plants (fold (markTile w) ps g) = plants g"
  by (induction ps arbitrary: g) (auto simp: markTile_def split: option.splits)

lemma fold_markTile_powered:
  "poweredTiles (fold (markTile w) ps g) =
     poweredTiles g \<union> {p \<in> set ps. consumesPower w (fst p) (snd p)
                          \<and> isWithinPowerRange (plants g) (fst p) (snd p)}"
proof (induction ps arbitrary: g)
  case Nil
  then show ?case by simp
next
  case (Cons q ps)
  have pl: "plants (markTile w q g) = plants g"
    by (auto simp: markTile_def split: option.splits)
  have pw: "poweredTiles (markTile w q g) =
      poweredTiles g \<union> {p. p = q \<and> consumesPower w (fst p) (snd p)
                            \<and> isWithinPowerRange (plants g) (fst p) (snd p)}"
    by (auto simp: markTile_def consumesPower_def POWER_CONSUMING_TILES_def split: option.splits)
  show ?case
    unfolding fold_Cons comp_def Cons.IH pl pw by auto
qed

lemma poweredTiles_recalculate:
  "poweredTiles (recalculate w g) =
     {p \<in> set (gridPositions w). consumesPower w (fst p) (snd p)
          \<and> isWithinPowerRange (findPowerPlants w) (fst p) (snd p)}"
  by (simp add: recalculate_def Let_def fold_markTile_powered)

lemma consumesPower_in_grid:
  "consumesPower w x y \<Longrightarrow> (x, y) \<in> set (gridPositions w)"
  by (auto simp: consumesPower_def getTile_def set_gridPositions split: option.splits if_splits)

lemma recalculate_any_start: "recalculate w g = recalculate w g'"
  by (cases g; cases g') (simp add: recalculate_def Let_def)

text \<open>
  C2, as stated, fails: in the one-row world \<open>[POWER_PLANT, EMPTY, RES]\<close> the empty tile at
  (1,0) is at Manhattan distance 1 from the plant, yet \<open>isPowered\<close> is false for it after
  \<open>recalculate\<close>, because only power-consuming tile types are entered into the powered set.
\<close>

theorem empty_tile_near_plant_unpowered:
  "nearPowerPlant exampleRow 1 0 \<and> \<not> isPowered (recalculate exampleRow initialGridState) 1 0"
  by code_simp

text \<open>
  C2, amended. After \<open>recalculate\<close>, \<open>isPowered x y\<close> holds if and only if the tile at
  \<open>(x, y)\<close> is of a power-consuming type (RES, COM, IND or ROAD) and some \<open>POWER_PLANT\<close> tile
  of the grid lies within Manhattan distance 8 of it.
\<close>

theorem isPowered_recalculate:
  "isPowered (recalculate w g) x y \<longleftrightarrow> consumesPower w x y \<and> nearPowerPlant w x y"
proof -
  have "isWithinPowerRange (findPowerPlants w) x y \<longleftrightarrow> nearPowerPlant w x y"
    unfolding isWithinPowerRange_iff findPowerPlants_def nearPowerPlant_def
      list_ex_iff POWER_RADIUS_def set_filter
    by blast
  then show ?thesis
    using consumesPower_in_grid [of w x y]
    by (auto simp: isPowered_def poweredTiles_recalculate)
qed

text \<open>
  C9. Recalculating twice in a row over the same grid gives the same power grid state
  (capacity, demand, plant positions and powered set) as recalculating once.
\<close>

theorem recalculate_idempotent:
  "recalculate w (recalculate w g) = recalculate w g"
  by (rule recalculate_any_start)

section \<open>Economy\<close>

lemma calculateStats_fields:
  "population (calculateStats w g cs)
     = s_population (fold (addTileStats w) (gridPositions w) noStats)"
  "jobs (calculateStats w g cs) = s_jobs (fold (addTileStats w) (gridPositions w) noStats)"
  "shoppers (calculateStats w g cs)
     = s_shoppers (fold (addTileStats w) (gridPositions w) noStats)"
  "balance (calculateStats w g cs) = balance cs"
  by (simp_all add: calculateStats_def calculateHappiness_def Let_def)

lemma netIncome_any: "netIncome w g cs = netIncome w g' cs'"
  by (simp add: netIncome_def Let_def calculateStats_fields)

lemma happiness_calculateHappiness:
  "happiness (calculateHappiness g cs) =
     (if 0 < capacity g \<and> 0 < demand g
         \<and> real_of_int (capacity g - demand g) \<ge> (10 / 100) * real_of_int (capacity g)
      then 5 / 10 + 2 / 10 else 5 / 10)"
  by (simp add: calculateHappiness_def Let_def getCapacity_def getDemand_def BASE_HAPPINESS_def
      POWER_HAPPINESS_BONUS_def SPARE_CAPACITY_THRESHOLD_def pos_le_divide_eq)

lemma happiness_onTick:
  "happiness (cityStats (onTick w g n es)) = happiness (calculateHappiness g cs)"
  by (simp add: onTick_def Let_def calculateStats_def collectTaxes_def calculateHappiness_def)

lemma balance_collectTaxes:
  "balance (collectTaxes w cs) =
     (case balance cs of
        None \<Rightarrow> Some 0
      | Some b \<Rightarrow> Some (b + real_of_int ((population cs * 2 + shoppers cs * 1 + jobs cs * 1)
                                  - (countTiles w ROAD * 1 + countTiles w POWER_PLANT * 5))))"
  by (simp add: collectTaxes_def Let_def TAX_PER_POPULATION_def TAX_PER_SHOPPER_def
      TAX_PER_JOB_def UPKEEP_PER_ROAD_def UPKEEP_PER_PLANT_def split: option.splits)

lemma onTick_balance:
  "balance (cityStats (onTick w g m es)) =
     (if real m / 10 - lastTaxTime es \<ge> 3
      then (case balance (cityStats es) of None \<Rightarrow> Some 0
            | Some b \<Rightarrow> Some (b + real_of_int (netIncome w g (cityStats es))))
      else balance (cityStats es))"
  by (simp add: onTick_def Let_def balance_collectTaxes calculateStats_fields netIncome_def
      TICK_INTERVAL_def TAX_INTERVAL_def split: option.splits)

lemma onTick_lastTaxTime:
  "lastTaxTime (onTick w g m es) =
     (if real m / 10 - lastTaxTime es \<ge> 3 then real m / 10 else lastTaxTime es)"
  by (simp add: onTick_def Let_def TICK_INTERVAL_def TAX_INTERVAL_def)

lemma economyTicks_inv:
  assumes "lastTaxTime es = 0" and "balance (cityStats es) = Some b"
  shows "lastTaxTime (economyTicks w g n es) = 3 * real (n div 30)
         \<and> balance (cityStats (economyTicks w g n es))
             = Some (b + real (n div 30) * real_of_int (netIncome w g (cityStats es)))"
proof (induction n)
  case 0
  then show ?case using assms by simp
next
  case (Suc n)
  let ?es = "economyTicks w g n es"
  define q where "q = n div 30"
  define r where "r = n mod 30"
  have n: "n = 30 * q + r" and r: "r < 30"
    by (simp_all add: q_def r_def)
  have net: "netIncome w g (cityStats ?es) = netIncome w g (cityStats es)"
    by (rule netIncome_any)
  have lt: "lastTaxTime ?es = 3 * real q"
    and bal: "balance (cityStats ?es)
                = Some (b + real q * real_of_int (netIncome w g (cityStats es)))"
    using Suc.IH by (simp_all add: q_def)
  have fire: "(real (Suc n) / 10 - lastTaxTime ?es \<ge> 3) \<longleftrightarrow> r = 29"
  proof -
    have "(real (Suc n) / 10 - lastTaxTime ?es \<ge> 3)
            \<longleftrightarrow> real (30 * q + 30) \<le> real (Suc n)"
      unfolding lt by (simp add: field_simps)
    also have "\<dots> \<longleftrightarrow> 30 * q + 30 \<le> Suc n"
      by (simp only: of_nat_le_iff)
    also have "\<dots> \<longleftrightarrow> r = 29"
      using n r by linarith
    finally show ?thesis .
  qed
  show ?case
  proof (cases "r = 29")
    case True
    then have sn: "Suc n = 30 * (q + 1)" using n by simp
    then have d: "Suc n div 30 = q + 1" by simp
    have e: "real (Suc n) / 10 = 3 * real (q + 1)"
      unfolding sn by simp
    show ?thesis
      unfolding economyTicks.simps onTick_balance onTick_lastTaxTime d
      using True fire e bal net by (simp add: algebra_simps)
  next
    case False
    then have "30 * q \<le> Suc n" and "Suc n < 30 * Suc q" using n r by simp_all
    then have d: "Suc n div 30 = q" by (rule div_nat_eqI)
    show ?thesis
      unfolding economyTicks.simps onTick_balance onTick_lastTaxTime d
      using False fire lt bal by simp
  qed
qed

lemma netIncome_exampleTown: "netIncome exampleTown initialGridState cs = 19"
  unfolding netIncome_def Let_def calculateStats_fields by code_simp

text \<open>
  C3, as stated, fails: with one power plant and no consuming tile the capacity is 200 and the
  demand 0, so the spare capacity is all of the capacity, yet the recompute leaves happiness
  at 0.5; the bonus is only considered when capacity and demand are both positive.
\<close>

theorem no_bonus_without_demand:
  "happiness (calculateStats plantOnly (recalculate plantOnly initialGridState)
                (cityStats newEconomySystem))
   \<noteq> specHappiness (getCapacity (recalculate plantOnly initialGridState))
                    (getDemand (recalculate plantOnly initialGridState))"
  by code_simp

text \<open>
  C3, amended. After the per-tick recompute, happiness is 0.5 + 0.2 exactly when capacity and
  demand are both positive and the spare capacity (capacity minus demand) is at least 10% of
  capacity, and 0.5 otherwise; the value lies in [0,1].
\<close>

theorem happiness_after_tick:
  "happiness (cityStats (onTick w g n es)) =
     (if 0 < capacity g \<and> 0 < demand g
         \<and> real_of_int (capacity g - demand g) \<ge> (10 / 100) * real_of_int (capacity g)
      then 5 / 10 + 2 / 10 else 5 / 10)
   \<and> 0 \<le> happiness (cityStats (onTick w g n es))
   \<and> happiness (cityStats (onTick w g n es)) \<le> 1"
  unfolding happiness_onTick [of w g n es "cityStats es"] happiness_calculateHappiness
  by simp

text \<open>
  C6. Over the ticks 1, 2, ..., n of an economy whose last tax time is 0, taxes are collected
  once per 30 ticks (3 simulated seconds), each collection adding \<open>income - upkeep\<close> to the
  balance, with income = population*2 + shoppers*1 + jobs*1 and upkeep = roads*1 + plants*5;
  a single collection turns a NaN balance into 0; and a tick collects exactly when its
  elapsed time is at least 3 seconds past the last collection.
\<close>

theorem tax_collection:
  "(lastTaxTime es = 0 \<and> balance (cityStats es) = Some b \<longrightarrow>
      balance (cityStats (economyTicks w g n es))
        = Some (b + real (n div 30) * real_of_int (netIncome w g (cityStats es))))
   \<and> balance (collectTaxes w cs) =
       (case balance cs of
          None \<Rightarrow> Some 0
        | Some b' \<Rightarrow> Some (b' + real_of_int ((population cs * 2 + shoppers cs * 1 + jobs cs * 1)
                                    - (countTiles w ROAD * 1 + countTiles w POWER_PLANT * 5))))
   \<and> cityStats (onTick w g m es) =
       (if real m * (100 / 1000) - lastTaxTime es \<ge> 3
        then collectTaxes w (calculateStats w g (cityStats es))
        else calculateStats w g (cityStats es))"
proof (intro conjI impI)
  assume "lastTaxTime es = 0 \<and> balance (cityStats es) = Some b"
  then show "balance (cityStats (economyTicks w g n es))
        = Some (b + real (n div 30) * real_of_int (netIncome w g (cityStats es)))"
    using economyTicks_inv [of es b w g n] by simp
next
  show "balance (collectTaxes w cs) =
       (case balance cs of
          None \<Rightarrow> Some 0
        | Some b' \<Rightarrow> Some (b' + real_of_int ((population cs * 2 + shoppers cs * 1 + jobs cs * 1)
                                    - (countTiles w ROAD * 1 + countTiles w POWER_PLANT * 5))))"
    by (rule balance_collectTaxes)
next
  show "cityStats (onTick w g m es) =
       (if real m * (100 / 1000) - lastTaxTime es \<ge> 3
        then collectTaxes w (calculateStats w g (cityStats es))
        else calculateStats w g (cityStats es))"
    by (simp add: onTick_def Let_def TICK_INTERVAL_def TAX_INTERVAL_def)
qed

text \<open>
  The spec's example: a level-1 residential tile (population 10) and one road, no plant;
  after 30 ticks the starting balance 1000 has grown by 19, and by 38 after 60 ticks.
\<close>

theorem tax_collection_witness:
  "lastTaxTime newEconomySystem = 0 \<and> balance (cityStats newEconomySystem) = Some 1000
   \<and> population (calculateStats exampleTown initialGridState (cityStats newEconomySystem)) = 10
   \<and> countTiles exampleTown ROAD = 1 \<and> countTiles exampleTown POWER_PLANT = 0
   \<and> balance (cityStats (economyTicks exampleTown initialGridState 30 newEconomySystem))
       = Some (1000 + 19)
   \<and> balance (cityStats (economyTicks exampleTown initialGridState 60 newEconomySystem))
       = Some (1000 + 2 * 19)"
proof -
  have a: "lastTaxTime newEconomySystem = 0 \<and> balance (cityStats newEconomySystem) = Some 1000"
    by (simp add: newEconomySystem_def STARTING_BALANCE_def)
  have p: "population (calculateStats exampleTown initialGridState (cityStats newEconomySystem))
             = 10"
    unfolding calculateStats_fields by code_simp
  have c: "countTiles exampleTown ROAD = 1 \<and> countTiles exampleTown POWER_PLANT = 0"
    by code_simp
  have t30: "balance (cityStats (economyTicks exampleTown initialGridState 30 newEconomySystem))
               = Some (1000 + 19)"
    using a tax_collection [of newEconomySystem 1000 exampleTown initialGridState 30]
    by (simp add: netIncome_exampleTown)
  have t60: "balance (cityStats (economyTicks exampleTown initialGridState 60 newEconomySystem))
               = Some (1000 + 2 * 19)"
    using a tax_collection [of newEconomySystem 1000 exampleTown initialGridState 60]
    by (simp add: netIncome_exampleTown)
  show ?thesis using a p c t30 t60 by simp
qed

section \<open>Tick scheduling across a pause\<close>

lemma fireTicks_count:
  "0 \<le> accumulator s \<Longrightarrow> tickCount (fireTicks s) = tickCount s + nat \<lfloor>accumulator s * 10\<rfloor>"
proof (induction s rule: fireTicks.induct)
  case (1 s)
  show ?case
  proof (cases "accumulator s \<ge> TICK_INTERVAL / 1000")
    case True
    let ?s' = "(tick s)\<lparr>accumulator := accumulator (tick s) - TICK_INTERVAL / 1000\<rparr>"
    have "1 \<le> accumulator s * 10" using True by (simp add: TICK_INTERVAL_def)
    then have ge: "1 \<le> \<lfloor>accumulator s * 10\<rfloor>" by linarith
    have fl: "\<lfloor>accumulator ?s' * 10\<rfloor> = \<lfloor>accumulator s * 10\<rfloor> - 1"
      by (simp add: TICK_INTERVAL_def algebra_simps tick_def)
    have "0 \<le> accumulator ?s'" using True by (simp add: tick_def)
    then have "tickCount (fireTicks ?s') = tickCount ?s' + nat \<lfloor>accumulator ?s' * 10\<rfloor>"
      using "1.IH" True by simp
    then show ?thesis
      using True ge unfolding fl by (subst fireTicks.simps) (simp add: tick_def nat_diff_distrib)
  next
    case False
    then have "accumulator s * 10 < 1" by (simp add: TICK_INTERVAL_def)
    then have "\<lfloor>accumulator s * 10\<rfloor> = 0" using 1 by (simp add: floor_eq_iff)
    then show ?thesis using False by (subst fireTicks.simps) simp
  qed
qed

lemma fireTicks_isRunning: "isRunning (fireTicks s) = isRunning s"
proof (induction s rule: fireTicks.induct)
  case (1 s)
  show ?case
  proof (cases "accumulator s \<ge> TICK_INTERVAL / 1000")
    case True
    then show ?thesis using "1.IH" by (subst fireTicks.simps) (simp add: tick_def)
  next
    case False
    then show ?thesis by (subst fireTicks.simps) simp
  qed
qed

lemma fireTicks_lastTime: "lastTime (fireTicks s) = lastTime s"
proof (induction s rule: fireTicks.induct)
  case (1 s)
  show ?case
  proof (cases "accumulator s \<ge> TICK_INTERVAL / 1000")
    case True
    then show ?thesis using "1.IH" by (subst fireTicks.simps) (simp add: tick_def)
  next
    case False
    then show ?thesis by (subst fireTicks.simps) simp
  qed
qed

lemma fireTicks_accumulator:
  "0 \<le> accumulator s \<Longrightarrow>
     accumulator (fireTicks s) = accumulator s - real_of_int \<lfloor>accumulator s * 10\<rfloor> / 10"
proof (induction s rule: fireTicks.induct)
  case (1 s)
  show ?case
  proof (cases "accumulator s \<ge> TICK_INTERVAL / 1000")
    case True
    let ?s' = "(tick s)\<lparr>accumulator := accumulator (tick s) - TICK_INTERVAL / 1000\<rparr>"
    have fl: "\<lfloor>accumulator ?s' * 10\<rfloor> = \<lfloor>accumulator s * 10\<rfloor> - 1"
      by (simp add: TICK_INTERVAL_def algebra_simps tick_def)
    have "0 \<le> accumulator ?s'" using True by (simp add: tick_def)
    then have "accumulator (fireTicks ?s')
                 = accumulator ?s' - real_of_int \<lfloor>accumulator ?s' * 10\<rfloor> / 10"
      using "1.IH" True by simp
    then show ?thesis
      using True unfolding fl
      by (subst fireTicks.simps) (simp add: tick_def TICK_INTERVAL_def field_simps)
  next
    case False
    then have "accumulator s * 10 < 1" by (simp add: TICK_INTERVAL_def)
    then have "\<lfloor>accumulator s * 10\<rfloor> = 0" using 1 by (simp add: floor_eq_iff)
    then show ?thesis using False by (subst fireTicks.simps) simp
  qed
qed

text \<open>
  C1 does not hold of the scheduler: \<open>update\<close> returns early while paused without moving
  \<open>lastTime\<close>, so the first update after a resume measures its delta from the last update
  before the pause. After a pause of 4000 ms the first update, 50 ms after the last paused
  frame, fires 40 ticks; after a pause of 0 ms the same update fires none.
\<close>

theorem paused_time_is_caught_up:
  "ticksAfterPause 4000 = 40 \<and> ticksAfterPause 0 = 0"
  unfolding ticksAfterPause_def update_def toggleRunning_def newSimulationSystem_def Let_def
  by (simp add: fireTicks_count fireTicks_isRunning fireTicks_lastTime fireTicks_accumulator)

section \<open>Growth passes over the grid\<close>

lemma getTile_writeTile:
  assumes "wellFormed w" and "isValidPosition w x y"
  shows "getTile (writeTile w x y t) x' y' = (if x' = x \<and> y' = y then Some t else getTile w x' y')"
proof -
  have ly: "nat y < length (tiles w)" and lx: "nat x < length (tiles w ! nat y)"
    using assms by (auto simp: wellFormed_def isValidPosition_def list_all_length)
  show ?thesis
  proof (cases "x' < 0 \<or> x' \<ge> width w \<or> y' < 0 \<or> y' \<ge> height w")
    case True
    then show ?thesis using assms(2) by (auto simp: getTile_def writeTile_def isValidPosition_def)
  next
    case False
    then have v: "0 \<le> x'" "0 \<le> y'" by auto
    have vy: "0 \<le> y" "0 \<le> x" using assms(2) by (auto simp: isValidPosition_def)
    show ?thesis
    proof (cases "y' = y")
      case True
      then show ?thesis using False ly lx v vy
        by (auto simp: getTile_def writeTile_def nth_list_update)
    next
      case n: False
      then have "nat y' \<noteq> nat y" using v vy by auto
      then show ?thesis using False n
        by (auto simp: getTile_def writeTile_def)
    qed
  qed
qed

lemma wellFormed_newWorld: "wellFormed (newWorld w h ts sd)"
  by (simp add: wellFormed_def newWorld_def list_all_length)

lemma wellFormed_writeTile: "wellFormed w \<Longrightarrow> wellFormed (writeTile w x y t)"
  by (cases "nat y < length (tiles w)")
     (auto simp: wellFormed_def writeTile_def list_all_length nth_list_update)

lemma dims_writeTile: "width (writeTile w x y t) = width w" "height (writeTile w x y t) = height w"
  by (simp_all add: writeTile_def)


lemma growthStep_dims:
  "width (g_world (growthStep pg hap p s)) = width (g_world s)"
  "height (g_world (growthStep pg hap p s)) = height (g_world s)"
  by (auto simp: growthStep_def Let_def dims_writeTile split: option.splits prod.splits)

lemma growthStep_wellFormed:
  "wellFormed (g_world s) \<Longrightarrow> wellFormed (g_world (growthStep pg hap p s))"
  by (auto simp: growthStep_def Let_def wellFormed_writeTile split: option.splits prod.splits)

lemma getTile_Some_valid: "getTile w x y = Some t \<Longrightarrow> isValidPosition w x y"
  by (auto simp: getTile_def isValidPosition_def split: if_splits)

lemma growthStep_other:
  assumes "wellFormed (g_world s)" and "q \<noteq> p"
  shows "getTile (g_world (growthStep pg hap p s)) (fst q) (snd q) = getTile (g_world s) (fst q) (snd q)"
proof (cases "getTile (g_world s) (fst p) (snd p)")
  case None
  then show ?thesis by (simp add: growthStep_def)
next
  case (Some tile)
  then have v: "isValidPosition (g_world s) (fst p) (snd p)" by (rule getTile_Some_valid)
  have ne: "\<not> (fst q = fst p \<and> snd q = snd p)" using assms(2) by (auto simp: prod_eq_iff)
  show ?thesis using Some ne
    by (auto simp: growthStep_def Let_def getTile_writeTile [OF assms(1) v] split: prod.splits)
qed

lemma growthStep_same:
  assumes "wellFormed (g_world s)" and "getTile (g_world s) (fst p) (snd p) = Some tile"
    and "canHaveBuildings (type tile)"
  shows "getTile (g_world (growthStep pg hap p s)) (fst p) (snd p)
           = Some (fst (growTile (isPowered pg (fst p) (snd p)) hap tile (g_rng s)))"
proof -
  have v: "isValidPosition (g_world s) (fst p) (snd p)" using assms(2) by (rule getTile_Some_valid)
  show ?thesis using assms(2,3)
    by (auto simp: growthStep_def Let_def getTile_writeTile [OF assms(1) v] split: prod.splits)
qed

lemma fold_growthStep_wellFormed:
  "wellFormed (g_world s) \<Longrightarrow> wellFormed (g_world (fold (growthStep pg hap) ps s))"
  by (induction ps arbitrary: s) (auto simp: growthStep_wellFormed)

lemma fold_growthStep_dims:
  "width (g_world (fold (growthStep pg hap) ps s)) = width (g_world s)"
  "height (g_world (fold (growthStep pg hap) ps s)) = height (g_world s)"
  by (induction ps arbitrary: s) (auto simp: growthStep_dims)

lemma fold_growthStep_untouched:
  "wellFormed (g_world s) \<Longrightarrow> q \<notin> set ps \<Longrightarrow>
     getTile (g_world (fold (growthStep pg hap) ps s)) (fst q) (snd q) = getTile (g_world s) (fst q) (snd q)"
proof (induction ps arbitrary: s)
  case Nil
  then show ?case by simp
next
  case (Cons p ps)
  then have "q \<noteq> p" "q \<notin> set ps" by auto
  then show ?case
    using Cons.IH [of "growthStep pg hap p s"] Cons.prems(1)
    by (simp add: growthStep_wellFormed growthStep_other)
qed

text \<open>In a pass over distinct positions, the tile at a visited position is the result of the
  loop body on the tile as it was before the pass, for the generator state at that moment.\<close>

lemma fold_growthStep_visited:
  assumes "wellFormed (g_world s)" and "distinct ps" and "p \<in> set ps"
    and "getTile (g_world s) (fst p) (snd p) = Some tile" and "canHaveBuildings (type tile)"
  shows "\<exists>rng. getTile (g_world (fold (growthStep pg hap) ps s)) (fst p) (snd p)
           = Some (fst (growTile (isPowered pg (fst p) (snd p)) hap tile rng))"
  using assms
proof (induction ps arbitrary: s)
  case Nil
  then show ?case by simp
next
  case (Cons q ps)
  show ?case
  proof (cases "q = p")
    case True
    then have "p \<notin> set ps" using Cons.prems(2) by simp
    then have "getTile (g_world (fold (growthStep pg hap) ps (growthStep pg hap p s))) (fst p) (snd p)
                = getTile (g_world (growthStep pg hap p s)) (fst p) (snd p)"
      using Cons.prems(1) by (simp add: fold_growthStep_untouched growthStep_wellFormed)
    then show ?thesis
      using True growthStep_same [OF Cons.prems(1) Cons.prems(4) Cons.prems(5)] by auto
  next
    case False
    then have "p \<in> set ps" "distinct ps" using Cons.prems by auto
    moreover have "getTile (g_world (growthStep pg hap q s)) (fst p) (snd p) = Some tile"
      using growthStep_other [OF Cons.prems(1), of p q] False Cons.prems(4) by simp
    ultimately show ?thesis
      using Cons.IH [of "growthStep pg hap q s"] Cons.prems(1,5)
      by (simp add: growthStep_wellFormed)
  qed
qed

lemma distinct_rows:
  "distinct xs \<Longrightarrow> distinct ys \<Longrightarrow> distinct (concat (map (\<lambda>y. map (\<lambda>x. (x, y)) xs) ys))"
  by (induction ys) (auto simp: distinct_map inj_on_def)

lemma distinct_gridPositions: "distinct (gridPositions w)"
  unfolding gridPositions_def by (rule distinct_rows) simp_all


lemma growthStep_nonzoned:
  "getTile (g_world s) (fst p) (snd p) = Some tile \<Longrightarrow> \<not> canHaveBuildings (type tile)
     \<Longrightarrow> growthStep pg hap p s = s"
  by (simp add: growthStep_def)

lemma fold_growthStep_nonzoned:
  assumes "wellFormed (g_world s)" and "getTile (g_world s) (fst q) (snd q) = Some tile"
    and "\<not> canHaveBuildings (type tile)"
  shows "getTile (g_world (fold (growthStep pg hap) ps s)) (fst q) (snd q) = Some tile"
  using assms
proof (induction ps arbitrary: s)
  case Nil
  then show ?case by simp
next
  case (Cons p ps)
  have "getTile (g_world (growthStep pg hap p s)) (fst q) (snd q) = Some tile"
  proof (cases "p = q")
    case True
    then show ?thesis using Cons.prems growthStep_nonzoned [of s q tile pg hap] by simp
  next
    case False
    then show ?thesis using growthStep_other [OF Cons.prems(1), of q p] Cons.prems(2) by simp
  qed
  then show ?case
    using Cons.IH [of "growthStep pg hap p s"] Cons.prems(1,3)
    by (simp add: growthStep_wellFormed)
qed

lemma growTile_type: "type (fst (growTile powered hap tile rng)) = type tile"
  by (simp add: growTile_def Let_def split: prod.splits)

lemma growTile_building: "building (fst (growTile powered hap tile rng)) \<noteq> None"
  by (simp add: growTile_def Let_def split: prod.splits)

lemma growTile_repair:
  "growTile powered hap (tile\<lparr>building := None\<rparr>) rng
     = growTile powered hap (tile\<lparr>building := Some \<lparr>level = 0, unpoweredTime = 0\<rparr>\<rparr>) rng"
  by (simp add: growTile_def repairBuilding_def Let_def split: prod.splits)

lemma growTile_abandon:
  assumes "building tile = Some b" and "level b > 0"
    and "unpoweredTime b + deltaTime \<ge> ABANDONMENT_TIME"
  shows "growTile False hap tile rng
           = (tile\<lparr>building := Some \<lparr>level = level b - 1, unpoweredTime = 0\<rparr>\<rparr>, rng, True)"
  using assms by (simp add: growTile_def repairBuilding_def Let_def)

lemma processGrowth_positions:
  "isValidPosition w x y \<Longrightarrow> (x, y) \<in> set (gridPositions w)"
  by (simp add: set_gridPositions isValidPosition_def)


lemma RNG_next_current_only:
  "current r1 = current r2 \<Longrightarrow>
     fst (RNG_next r1) = fst (RNG_next r2)
     \<and> current (snd (RNG_next r1)) = current (snd (RNG_next r2))"
  by (simp add: RNG_next_def Let_def)

lemma growTile_current_only:
  assumes "current r1 = current r2"
  shows "fst (growTile powered hap tile r1) = fst (growTile powered hap tile r2)
         \<and> current (fst (snd (growTile powered hap tile r1)))
             = current (fst (snd (growTile powered hap tile r2)))
         \<and> snd (snd (growTile powered hap tile r1)) = snd (snd (growTile powered hap tile r2))"
proof -
  have e1: "fst (RNG_next r1) = fst (RNG_next r2)"
    and e2: "current (snd (RNG_next r1)) = current (snd (RNG_next r2))"
    using RNG_next_current_only [OF assms] by simp_all
  show ?thesis
    using assms by (simp add: growTile_def Let_def case_prod_beta e1 e2)
qed

lemma sameGrid_getTile: "sameGrid w1 w2 \<Longrightarrow> getTile w1 x y = getTile w2 x y"
  by (simp add: sameGrid_def getTile_def)

lemma sameGrid_writeTile: "sameGrid w1 w2 \<Longrightarrow> sameGrid (writeTile w1 x y t) (writeTile w2 x y t)"
  by (simp add: sameGrid_def writeTile_def)

lemma sameGrid_gridPositions: "sameGrid w1 w2 \<Longrightarrow> gridPositions w1 = gridPositions w2"
  by (simp add: sameGrid_def gridPositions_def)

lemma growthStep_sameGrowth:
  assumes "sameGrowth s1 s2" and "poweredTiles pg1 = poweredTiles pg2"
  shows "sameGrowth (growthStep pg1 hap p s1) (growthStep pg2 hap p s2)"
proof -
  have g: "getTile (g_world s1) (fst p) (snd p) = getTile (g_world s2) (fst p) (snd p)"
    using assms(1) by (simp add: sameGrowth_def sameGrid_getTile)
  have pw: "isPowered pg1 (fst p) (snd p) = isPowered pg2 (fst p) (snd p)"
    using assms(2) by (simp add: isPowered_def)
  show ?thesis
  proof (cases "getTile (g_world s2) (fst p) (snd p)")
    case None
    then show ?thesis using g assms(1) by (simp add: growthStep_def)
  next
    case (Some tile)
    have c: "current (g_rng s1) = current (g_rng s2)" using assms(1) by (simp add: sameGrowth_def)
    note gt = growTile_current_only [OF c, of "isPowered pg2 (fst p) (snd p)" hap tile]
    show ?thesis
      using Some g pw gt assms(1)
      by (simp add: growthStep_def Let_def case_prod_beta sameGrowth_def sameGrid_writeTile)
  qed
qed

lemma fold_growthStep_sameGrowth:
  "sameGrowth s1 s2 \<Longrightarrow> poweredTiles pg1 = poweredTiles pg2 \<Longrightarrow>
     sameGrowth (fold (growthStep pg1 hap) ps s1) (fold (growthStep pg2 hap) ps s2)"
  by (induction ps arbitrary: s1 s2) (simp_all add: growthStep_sameGrowth)

lemma processGrowth_sameGrowth:
  assumes "sameGrid w1 w2" and "poweredTiles pg1 = poweredTiles pg2" and "current r1 = current r2"
  shows "sameGrowth (processGrowth pg1 hap w1 r1) (processGrowth pg2 hap w2 r2)"
  unfolding processGrowth_def sameGrid_gridPositions [OF assms(1)]
  using assms by (intro fold_growthStep_sameGrowth) (simp_all add: sameGrowth_def)

lemma GrowthSystem_onTick_same:
  assumes "sameEngine e1 e2" and "current r1 = current r2"
  shows "sameEngine (fst (GrowthSystem_onTick e1 r1)) (fst (GrowthSystem_onTick e2 r2))
         \<and> current (fst (snd (GrowthSystem_onTick e1 r1)))
             = current (fst (snd (GrowthSystem_onTick e2 r2)))
         \<and> snd (snd (GrowthSystem_onTick e1 r1)) = snd (snd (GrowthSystem_onTick e2 r2))"
proof -
  have g: "sameGrid (worldState e1) (worldState e2)"
    and p: "poweredTiles (powerSystem e1) = poweredTiles (powerSystem e2)"
    and h: "cityHappiness e1 = cityHappiness e2"
    using assms(1) by (simp_all add: sameEngine_def)
  have "sameGrowth (processGrowth (powerSystem e1) (cityHappiness e1) (worldState e1) r1)
                   (processGrowth (powerSystem e2) (cityHappiness e1) (worldState e2) r2)"
    using g p assms(2) by (rule processGrowth_sameGrowth)
  then show ?thesis
    using p h by (simp add: GrowthSystem_onTick_def Let_def sameGrowth_def sameEngine_def)
qed

lemma emitTick_same:
  "list_all2 sameEngine es1 es2 \<Longrightarrow> current r1 = current r2 \<Longrightarrow>
     list_all2 sameEngine (fst (emitTick es1 r1)) (fst (emitTick es2 r2))
     \<and> current (fst (snd (emitTick es1 r1))) = current (fst (snd (emitTick es2 r2)))
     \<and> snd (snd (emitTick es1 r1)) = snd (snd (emitTick es2 r2))"
proof (induction es1 es2 arbitrary: r1 r2 rule: list_all2_induct)
  case Nil
  then show ?case by simp
next
  case (Cons e1 es1 e2 es2)
  note one = GrowthSystem_onTick_same [OF Cons.hyps(1) Cons.prems]
  then have c: "current (fst (snd (GrowthSystem_onTick e1 r1)))
                  = current (fst (snd (GrowthSystem_onTick e2 r2)))" by simp
  from Cons.IH [OF c] one show ?case
    by (simp add: Let_def case_prod_beta)
qed

lemma growthTicks_same:
  "list_all2 sameEngine (tickListeners P1) (tickListeners P2) \<Longrightarrow>
   current (shared_rng P1) = current (shared_rng P2) \<Longrightarrow>
     snd (growthTicks n P1) = snd (growthTicks n P2)
     \<and> list_all2 sameEngine (tickListeners (fst (growthTicks n P1)))
                             (tickListeners (fst (growthTicks n P2)))
     \<and> current (shared_rng (fst (growthTicks n P1))) = current (shared_rng (fst (growthTicks n P2)))"
proof (induction n arbitrary: P1 P2)
  case 0
  then show ?case by simp
next
  case (Suc n)
  note t = emitTick_same [OF Suc.prems]
  let ?Q1 = "\<lparr>shared_rng = fst (snd (emitTick (tickListeners P1) (shared_rng P1))),
              tickListeners = fst (emitTick (tickListeners P1) (shared_rng P1))\<rparr>"
  let ?Q2 = "\<lparr>shared_rng = fst (snd (emitTick (tickListeners P2) (shared_rng P2))),
              tickListeners = fst (emitTick (tickListeners P2) (shared_rng P2))\<rparr>"
  have "list_all2 sameEngine (tickListeners ?Q1) (tickListeners ?Q2)"
    and "current (shared_rng ?Q1) = current (shared_rng ?Q2)"
    using t by simp_all
  from Suc.IH [OF this] t show ?case
    by (simp add: Let_def case_prod_beta)
qed

lemma growTile_powered:
  assumes "building tile = Some b"
  shows "growTile True hap tile r =
     (if level b = 0 then
        (tile\<lparr>building := Some \<lparr>level = (if fst (RNG_next r) < 1 / 100 then 1 else 0),
                                 unpoweredTime = 0\<rparr>\<rparr>,
         snd (RNG_next r), fst (RNG_next r) < 1 / 100)
      else if level b < 3 then
        (tile\<lparr>building := Some
           \<lparr>level = (if fst (RNG_next r) < (5 / 1000) * (if hap \<ge> 7 / 10 then 2 else 1)
                      then level b + 1 else level b),
            unpoweredTime = 0\<rparr>\<rparr>,
         snd (RNG_next r),
         fst (RNG_next r) < (5 / 1000) * (if hap \<ge> 7 / 10 then 2 else 1))
      else (tile\<lparr>building := Some \<lparr>level = level b, unpoweredTime = 0\<rparr>\<rparr>, r, False))"
  using assms
  by (simp add: growTile_def repairBuilding_def Let_def case_prod_beta ABANDONMENT_TIME_def
      GROWTH_CHANCE_def UPGRADE_BASE_CHANCE_def HAPPINESS_UPGRADE_MULTIPLIER_def
      MAX_BUILDING_LEVEL_def)

lemma growTile_unpowered: "fst (snd (growTile False hap tile r)) = r"
  by (simp add: growTile_def Let_def)

lemma roundMagnitude_nonneg: "0 \<le> n \<Longrightarrow> 0 \<le> roundMagnitude n"
  by (simp add: roundMagnitude_def Let_def pos_imp_zdiv_nonneg_iff)

lemma roundDouble_nonneg: "0 \<le> n \<Longrightarrow> 0 \<le> roundDouble n"
  using roundMagnitude_nonneg [of "\<bar>n\<bar>"] by (simp add: roundDouble_def sgn_if)

lemma RNG_next_range:
  assumes "0 \<le> current r"
  shows "0 \<le> current (snd (RNG_next r)) \<and> current (snd (RNG_next r)) < 2 ^ 32"
proof -
  have "0 \<le> roundDouble (1664525 * current r)" using assms by (intro roundDouble_nonneg) simp
  then have "0 \<le> roundDouble (roundDouble (1664525 * current r) + 1013904223)"
    by (intro roundDouble_nonneg) simp
  then show ?thesis
    by (simp add: RNG_next_def Let_def signed_modulo_int_def sgn_if)
qed


lemma RNG_next_exact:
  assumes "0 \<le> current r" "current r < 2 ^ 32"
  shows "current (snd (RNG_next r)) = (1664525 * current r + 1013904223) mod 2 ^ 32"
    and "fst (RNG_next r) = real_of_int ((1664525 * current r + 1013904223) mod 2 ^ 32) / 2 ^ 32"
proof -
  have a: "1664525 * current r < 2 ^ 53" "0 \<le> 1664525 * current r" using assms by simp_all
  have b: "1664525 * current r + 1013904223 < 2 ^ 53" "0 < 1664525 * current r + 1013904223"
    using assms by simp_all
  have "roundDouble (1664525 * current r) = 1664525 * current r"
    using a by (cases "current r = 0") (simp_all add: roundDouble_def roundMagnitude_def sgn_if)
  moreover have "roundDouble (1664525 * current r + 1013904223)
                   = 1664525 * current r + 1013904223"
    using b by (simp add: roundDouble_def roundMagnitude_def sgn_if)
  ultimately have "roundDouble (roundDouble (1664525 * current r) + 1013904223) smod 2 ^ 32
          = (1664525 * current r + 1013904223) mod 2 ^ 32"
    using b by (simp add: signed_modulo_int_def sgn_if)
  then show "current (snd (RNG_next r)) = (1664525 * current r + 1013904223) mod 2 ^ 32"
    and "fst (RNG_next r)
           = real_of_int ((1664525 * current r + 1013904223) mod 2 ^ 32) / 2 ^ 32"
    by (simp_all add: RNG_next_def Let_def)
qed

text \<open>
  C5. Take a zoned tile of a well-formed grid that carries a building of level above 0, is
  unpowered at a growth tick, and whose unpowered time, once this tick's 0.1 s is added,
  is at least 30 s. Then the loop body lowers the level by exactly one, sets the timer to 0,
  reports the tile as changed and leaves the generator untouched (no spawn or upgrade draw);
  and after the whole pass the tile at that position is this abandoned tile.
\<close>

theorem abandonment_preempts_growth:
  assumes "wellFormed w" and "getTile w x y = Some tile" and "canHaveBuildings (type tile)"
    and "building tile = Some b" and "level b > 0"
    and "\<not> isPowered pg x y" and "unpoweredTime b + deltaTime \<ge> ABANDONMENT_TIME"
  shows "growTile (isPowered pg x y) hap tile rng
           = (tile\<lparr>building := Some \<lparr>level = level b - 1, unpoweredTime = 0\<rparr>\<rparr>, rng, True)
         \<and> getTile (g_world (processGrowth pg hap w rng)) x y
             = Some (tile\<lparr>building := Some \<lparr>level = level b - 1, unpoweredTime = 0\<rparr>\<rparr>)"
proof -
  have one: "growTile (isPowered pg x y) hap tile r
           = (tile\<lparr>building := Some \<lparr>level = level b - 1, unpoweredTime = 0\<rparr>\<rparr>, r, True)" for r
    using growTile_abandon [OF assms(4,5,7)] assms(6) by simp
  have v: "(x, y) \<in> set (gridPositions w)"
    using assms(2) by (intro processGrowth_positions getTile_Some_valid)
  obtain r where "getTile (g_world (processGrowth pg hap w rng)) x y
           = Some (fst (growTile (isPowered pg x y) hap tile r))"
    using fold_growthStep_visited [of "\<lparr>g_world = w, g_rng = rng, changedTiles = []\<rparr>"
        "gridPositions w" "(x, y)" tile pg hap]
      assms(1,2,3) v distinct_gridPositions [of w]
    by (auto simp: processGrowth_def)
  then show ?thesis using one by simp
qed

theorem abandonment_preempts_growth_witness:
  "wellFormed abandonedLot
   \<and> getTile abandonedLot 0 0
       = Some \<lparr>type = RES, building = Some \<lparr>level = 2, unpoweredTime = 2995 / 100\<rparr>\<rparr>
   \<and> \<not> isPowered initialGridState 0 0
   \<and> getTile (g_world (processGrowth initialGridState (5 / 10) abandonedLot
                          \<lparr>rng_seed = 7, current = 7\<rparr>)) 0 0
       = Some \<lparr>type = RES, building = Some \<lparr>level = 1, unpoweredTime = 0\<rparr>\<rparr>"
proof -
  have wf: "wellFormed abandonedLot" by (simp add: wellFormed_def abandonedLot_def)
  have gt: "getTile abandonedLot 0 0
       = Some \<lparr>type = RES, building = Some \<lparr>level = 2, unpoweredTime = 2995 / 100\<rparr>\<rparr>"
    by (simp add: getTile_def abandonedLot_def)
  have np: "\<not> isPowered initialGridState 0 0"
    by (simp add: isPowered_def initialGridState_def)
  show ?thesis
    using wf gt np
      abandonment_preempts_growth [OF wf gt, of "\<lparr>level = 2, unpoweredTime = 2995 / 100\<rparr>"
        initialGridState "5 / 10" "\<lparr>rng_seed = 7, current = 7\<rparr>"]
    by (simp add: canHaveBuildings_def deltaTime_def TICK_INTERVAL_def ABANDONMENT_TIME_def)
qed

text \<open>
  C10. A zoned tile without a building record is processed exactly as the same tile with a
  building of level 0 and unpowered time 0; after a growth pass over a well-formed grid every
  zoned tile carries a building record; and a zoned tile that had none holds the result of the
  loop body on the repaired tile.
\<close>

theorem growth_repairs_missing_building:
  "growTile powered hap (tile\<lparr>building := None\<rparr>) rng
     = growTile powered hap (tile\<lparr>building := Some \<lparr>level = 0, unpoweredTime = 0\<rparr>\<rparr>) rng
   \<and> (wellFormed w \<and> getTile (g_world (processGrowth pg hap w rng)) x y = Some t
        \<and> canHaveBuildings (type t) \<longrightarrow> building t \<noteq> None)
   \<and> (wellFormed w \<and> getTile w x y = Some tile \<and> canHaveBuildings (type tile)
        \<and> building tile = None \<longrightarrow>
        (\<exists>r. getTile (g_world (processGrowth pg hap w rng)) x y
               = Some (fst (growTile (isPowered pg x y) hap
                       (tile\<lparr>building := Some \<lparr>level = 0, unpoweredTime = 0\<rparr>\<rparr>) r))))"
proof (intro conjI impI)
  show "growTile powered hap (tile\<lparr>building := None\<rparr>) rng
     = growTile powered hap (tile\<lparr>building := Some \<lparr>level = 0, unpoweredTime = 0\<rparr>\<rparr>) rng"
    by (rule growTile_repair)
next
  let ?s = "\<lparr>g_world = w, g_rng = rng, changedTiles = []\<rparr>"
  assume a: "wellFormed w \<and> getTile (g_world (processGrowth pg hap w rng)) x y = Some t
        \<and> canHaveBuildings (type t)"
  then have "isValidPosition (g_world (processGrowth pg hap w rng)) x y"
    by (intro getTile_Some_valid) simp
  then have v: "isValidPosition w x y"
    by (simp add: isValidPosition_def processGrowth_def fold_growthStep_dims)
  then obtain t0 where t0: "getTile w x y = Some t0"
    by (auto simp: getTile_def isValidPosition_def)
  show "building t \<noteq> None"
  proof (cases "canHaveBuildings (type t0)")
    case True
    obtain r where "getTile (g_world (processGrowth pg hap w rng)) x y
           = Some (fst (growTile (isPowered pg x y) hap t0 r))"
      using fold_growthStep_visited [of ?s "gridPositions w" "(x, y)" t0 pg hap]
        a t0 True processGrowth_positions [OF v] distinct_gridPositions [of w]
      by (auto simp: processGrowth_def)
    then show ?thesis using a growTile_building [of "isPowered pg x y" hap t0 r] by simp
  next
    case False
    have "getTile (g_world (processGrowth pg hap w rng)) x y = Some t0"
      using fold_growthStep_nonzoned [of ?s "(x, y)" t0 pg hap "gridPositions w"] a t0 False
      by (simp add: processGrowth_def)
    then show ?thesis using a False by simp
  qed
next
  let ?s = "\<lparr>g_world = w, g_rng = rng, changedTiles = []\<rparr>"
  assume a: "wellFormed w \<and> getTile w x y = Some tile \<and> canHaveBuildings (type tile)
        \<and> building tile = None"
  then have v: "isValidPosition w x y" by (intro getTile_Some_valid) simp
  obtain r where r: "getTile (g_world (processGrowth pg hap w rng)) x y
           = Some (fst (growTile (isPowered pg x y) hap tile r))"
    using fold_growthStep_visited [of ?s "gridPositions w" "(x, y)" tile pg hap]
      a processGrowth_positions [OF v] distinct_gridPositions [of w]
    by (auto simp: processGrowth_def)
  have "tile = tile\<lparr>building := None\<rparr>" using a by simp
  then have "growTile (isPowered pg x y) hap tile r
     = growTile (isPowered pg x y) hap (tile\<lparr>building := Some \<lparr>level = 0, unpoweredTime = 0\<rparr>\<rparr>) r"
    using growTile_repair [of "isPowered pg x y" hap tile r] by simp
  then show "\<exists>r. getTile (g_world (processGrowth pg hap w rng)) x y
               = Some (fst (growTile (isPowered pg x y) hap
                       (tile\<lparr>building := Some \<lparr>level = 0, unpoweredTime = 0\<rparr>\<rparr>) r))"
    using r by auto
qed


theorem growth_repairs_missing_building_witness:
  "wellFormed bareZone
   \<and> getTile bareZone 0 0 = Some \<lparr>type = COM, building = None\<rparr>
   \<and> canHaveBuildings COM
   \<and> getTile (g_world (processGrowth initialGridState (5 / 10) bareZone
                          \<lparr>rng_seed = 7, current = 7\<rparr>)) 0 0
       = Some (fst (growTile False (5 / 10)
                 \<lparr>type = COM, building = Some \<lparr>level = 0, unpoweredTime = 0\<rparr>\<rparr>
                 \<lparr>rng_seed = 7, current = 7\<rparr>))
   \<and> fst (growTile False (5 / 10)
                 \<lparr>type = COM, building = Some \<lparr>level = 0, unpoweredTime = 0\<rparr>\<rparr>
                 \<lparr>rng_seed = 7, current = 7\<rparr>)
       = \<lparr>type = COM, building = Some \<lparr>level = 0, unpoweredTime = 1 / 10\<rparr>\<rparr>"
proof -
  have wf: "wellFormed bareZone" by (simp add: wellFormed_def bareZone_def)
  have gt: "getTile bareZone 0 0 = Some \<lparr>type = COM, building = None\<rparr>"
    by (simp add: getTile_def bareZone_def)
  have zc: "canHaveBuildings COM" by (simp add: canHaveBuildings_def)
  have np: "\<not> isPowered initialGridState 0 0"
    by (simp add: isPowered_def initialGridState_def)
  have one: "growTile False (5 / 10)
                 \<lparr>type = COM, building = Some \<lparr>level = 0, unpoweredTime = 0\<rparr>\<rparr> r
       = (\<lparr>type = COM, building = Some \<lparr>level = 0, unpoweredTime = 1 / 10\<rparr>\<rparr>, r, False)" for r
    by (simp add: growTile_def repairBuilding_def Let_def deltaTime_def TICK_INTERVAL_def
        ABANDONMENT_TIME_def)
  show ?thesis
    using wf gt zc np one
      growth_repairs_missing_building [where w = bareZone and x = 0 and y = 0
        and tile = "\<lparr>type = COM, building = None\<rparr>" and pg = initialGridState
        and hap = "5 / 10" and rng = "\<lparr>rng_seed = 7, current = 7\<rparr>"]
    by simp
qed

lemma lotEngine_first_tick:
  "GrowthSystem_onTick (lotEngine (1 / 2)) \<lparr>rng_seed = 1972, current = 1972\<rparr>
     = ((lotEngine (1 / 2))\<lparr>worldState := spawnedLot\<rparr>,
        \<lparr>rng_seed = 1972, current = 1380227\<rparr>, [(1, 0)])"
  by code_simp

lemma lotEngine_second_draw:
  "GrowthSystem_onTick (lotEngine (1 / 2)) \<lparr>rng_seed = 1972, current = 1380227\<rparr>
     = (lotEngine (1 / 2), \<lparr>rng_seed = 1972, current = 628748038\<rparr>, [])"
  by code_simp

lemma lotEngine_second_tick:
  "GrowthSystem_onTick ((lotEngine (1 / 2))\<lparr>worldState := spawnedLot\<rparr>)
       \<lparr>rng_seed = 1972, current = 1380227\<rparr>
     = ((lotEngine (1 / 2))\<lparr>worldState := spawnedLot\<rparr>,
        \<lparr>rng_seed = 1972, current = 628748038\<rparr>, [])"
  by code_simp

lemma builtEngine_calm:
  "GrowthSystem_onTick (builtEngine (1 / 2)) \<lparr>rng_seed = 1985, current = 1985\<rparr>
     = (builtEngine (1 / 2), \<lparr>rng_seed = 1985, current = 23019052\<rparr>, [])"
  by code_simp

lemma builtEngine_happy:
  "GrowthSystem_onTick (builtEngine (7 / 10)) \<lparr>rng_seed = 1985, current = 1985\<rparr>
     = ((builtEngine (7 / 10))\<lparr>worldState := upgradedLot\<rparr>,
        \<lparr>rng_seed = 1985, current = 23019052\<rparr>, [(1, 0)])"
  by code_simp

text \<open>
  C4, as stated, fails in three ways.

  The formula: with \<open>current = 1793000000000\<close>, a seed of the size of \<open>Date.now()\<close> (the
  default), the product \<open>1664525 * current\<close> is 2984493325000000000, a multiple of 512 and so
  a double; adding 1013904223 gives 2984493326013904223, which lies between \<open>2 ^ 61\<close> and
  \<open>2 ^ 62\<close> where doubles are 512 apart, and is rounded to 2984493326013904384. Its
  remainder modulo \<open>2 ^ 32\<close> is 328545792, while the integer formula gives 328545631.

  Two engines in one process: both are built over the same tiles with seed 1972, yet on the
  first tick the first engine takes the first draw (1380227 / 2^32, below 0.01) and spawns a
  building at (1,0), and the second takes the second draw (about 0.146) and spawns nothing.

  Happiness: over the same tiles, powered set and seed 1985, whose first draw is about
  0.00536, an engine with happiness 0.5 leaves the level-1 building as it is and an engine
  with happiness 0.7 upgrades it.
\<close>

theorem growth_replays_differ:
  "current (snd (RNG_next (setSeed 1793000000000 \<lparr>rng_seed = 0, current = 0\<rparr>)))
     \<noteq> (1664525 * 1793000000000 + 1013904223) mod 2 ^ 32
   \<and> current (snd (RNG_next (setSeed 1793000000000 \<lparr>rng_seed = 0, current = 0\<rparr>)))
       = 328545792
   \<and> (1664525 * 1793000000000 + 1013904223) mod 2 ^ 32 = (328545631 :: int)
   \<and> list_all2 sameEngine [lotEngine (5 / 10)] [lotEngine (5 / 10)]
   \<and> tickListeners restartedProcess = [lotEngine (5 / 10), lotEngine (5 / 10)]
   \<and> snd (growthTicks 1 restartedProcess) = [[[(1, 0)], []]]
   \<and> snd (growthTicks 1 (freshProcess 1985 (builtEngine (5 / 10)))) = [[[]]]
   \<and> snd (growthTicks 1 (freshProcess 1985 (builtEngine (7 / 10)))) = [[[(1, 0)]]]"
proof -
  have r: "current (snd (RNG_next (setSeed 1793000000000 \<lparr>rng_seed = 0, current = 0\<rparr>)))
             = 328545792"
    by code_simp
  have f: "(1664525 * 1793000000000 + 1013904223) mod 2 ^ 32 = (328545631 :: int)"
    by simp
  have s: "list_all2 sameEngine [lotEngine (5 / 10)] [lotEngine (5 / 10)]"
    by (simp add: sameEngine_def sameGrid_def)
  have l: "tickListeners restartedProcess = [lotEngine (5 / 10), lotEngine (5 / 10)]"
    and g: "shared_rng restartedProcess = \<lparr>rng_seed = 1972, current = 1972\<rparr>"
    by (simp_all add: restartedProcess_def newGrowthSystem_def seedWorld_def
        destroyGrowthSystem_def loadModule_def setSeed_def)
  have t: "snd (growthTicks 1 restartedProcess) = [[[(1, 0)], []]]"
    by (simp add: l g lotEngine_first_tick lotEngine_second_draw)
  have h5: "snd (growthTicks 1 (freshProcess 1985 (builtEngine (5 / 10)))) = [[[]]]"
    by (simp add: freshProcess_def newGrowthSystem_def seedWorld_def loadModule_def setSeed_def
        builtEngine_calm)
  have h7: "snd (growthTicks 1 (freshProcess 1985 (builtEngine (7 / 10)))) = [[[(1, 0)]]]"
    by (simp add: freshProcess_def newGrowthSystem_def seedWorld_def loadModule_def setSeed_def
        builtEngine_happy)
  show ?thesis
    unfolding r f using s l t h5 h7 by simp
qed

text \<open>
  C4, amended. Two runs started from the same seed with the same growth engines subscribed in
  the same order (engine by engine the same tiles, the same powered set and the same
  happiness) produce, for every seed and every tick count, the same batches of changed tiles
  for every engine and tick, and end with the same tiles, whatever else differs between them
  (stored seed, tile size, power totals). All randomness is drawn from the one generator the
  engines share: an unpowered tile draws nothing; a powered vacant lot takes one draw and
  spawns exactly when it is below 0.01; a powered building of level below 3 takes one draw
  and upgrades exactly when it is below 0.005, doubled when happiness is at least 0.7; a
  powered building of level 3 or more draws nothing. For a state in \<open>[0, 2 ^ 32)\<close> the step is
  \<open>(1664525 * current + 1013904223) mod 2 ^ 32\<close> with output \<open>next / 2 ^ 32\<close>, and after a
  draw from a non-negative state the state lies in that range, so only the first draw from a
  seed of \<open>2 ^ 32\<close> or more can be a rounded one.
\<close>

theorem growth_deterministic:
  "(list_all2 sameEngine (tickListeners P1) (tickListeners P2) \<longrightarrow>
      snd (growthTicks n (seedWorld sd P1)) = snd (growthTicks n (seedWorld sd P2))
      \<and> list_all2 sameEngine (tickListeners (fst (growthTicks n (seedWorld sd P1))))
                              (tickListeners (fst (growthTicks n (seedWorld sd P2)))))
   \<and> fst (snd (growTile False hap tile r)) = r
   \<and> (building tile = Some b \<longrightarrow>
        growTile True hap tile r =
          (if level b = 0 then
             (tile\<lparr>building := Some \<lparr>level = (if fst (RNG_next r) < 1 / 100 then 1 else 0),
                                      unpoweredTime = 0\<rparr>\<rparr>,
              snd (RNG_next r), fst (RNG_next r) < 1 / 100)
           else if level b < 3 then
             (tile\<lparr>building := Some
                \<lparr>level = (if fst (RNG_next r) < (5 / 1000) * (if hap \<ge> 7 / 10 then 2 else 1)
                           then level b + 1 else level b),
                 unpoweredTime = 0\<rparr>\<rparr>,
              snd (RNG_next r),
              fst (RNG_next r) < (5 / 1000) * (if hap \<ge> 7 / 10 then 2 else 1))
           else (tile\<lparr>building := Some \<lparr>level = level b, unpoweredTime = 0\<rparr>\<rparr>, r, False)))
   \<and> (0 \<le> current r \<and> current r < 2 ^ 32 \<longrightarrow>
        current (snd (RNG_next r)) = (1664525 * current r + 1013904223) mod 2 ^ 32
        \<and> fst (RNG_next r) = real_of_int (current (snd (RNG_next r))) / 2 ^ 32)
   \<and> (0 \<le> current r \<longrightarrow>
        0 \<le> current (snd (RNG_next r)) \<and> current (snd (RNG_next r)) < 2 ^ 32)"
proof (intro conjI impI)
  assume a: "list_all2 sameEngine (tickListeners P1) (tickListeners P2)"
  have "list_all2 sameEngine (tickListeners (seedWorld sd P1)) (tickListeners (seedWorld sd P2))"
    and "current (shared_rng (seedWorld sd P1)) = current (shared_rng (seedWorld sd P2))"
    using a by (simp_all add: seedWorld_def setSeed_def)
  note d = growthTicks_same [OF this, of n]
  from d show "snd (growthTicks n (seedWorld sd P1)) = snd (growthTicks n (seedWorld sd P2))"
    by simp
  from d show "list_all2 sameEngine (tickListeners (fst (growthTicks n (seedWorld sd P1))))
                              (tickListeners (fst (growthTicks n (seedWorld sd P2))))"
    by simp
next
  show "fst (snd (growTile False hap tile r)) = r" by (rule growTile_unpowered)
next
  assume "building tile = Some b"
  then show "growTile True hap tile r =
          (if level b = 0 then
             (tile\<lparr>building := Some \<lparr>level = (if fst (RNG_next r) < 1 / 100 then 1 else 0),
                                      unpoweredTime = 0\<rparr>\<rparr>,
              snd (RNG_next r), fst (RNG_next r) < 1 / 100)
           else if level b < 3 then
             (tile\<lparr>building := Some
                \<lparr>level = (if fst (RNG_next r) < (5 / 1000) * (if hap \<ge> 7 / 10 then 2 else 1)
                           then level b + 1 else level b),
                 unpoweredTime = 0\<rparr>\<rparr>,
              snd (RNG_next r),
              fst (RNG_next r) < (5 / 1000) * (if hap \<ge> 7 / 10 then 2 else 1))
           else (tile\<lparr>building := Some \<lparr>level = level b, unpoweredTime = 0\<rparr>\<rparr>, r, False))"
    by (rule growTile_powered)
next
  assume b: "0 \<le> current r \<and> current r < 2 ^ 32"
  then show "current (snd (RNG_next r)) = (1664525 * current r + 1013904223) mod 2 ^ 32"
    using RNG_next_exact(1) [of r] by simp
  from b show "fst (RNG_next r) = real_of_int (current (snd (RNG_next r))) / 2 ^ 32"
    using RNG_next_exact [of r] by simp
next
  assume "0 \<le> current r"
  then show "0 \<le> current (snd (RNG_next r))" and "current (snd (RNG_next r)) < 2 ^ 32"
    using RNG_next_range [of r] by simp_all
qed

theorem growth_deterministic_witness:
  "list_all2 sameEngine
     (tickListeners (freshProcess 0 (lotEngine (5 / 10))))
     (tickListeners (freshProcess 7
        \<lparr>worldState = poweredLot\<lparr>tileSize := 16, seed := 5\<rparr>,
         powerSystem = (recalculate poweredLot initialGridState)\<lparr>capacity := 0\<rparr>,
         cityHappiness = 5 / 10\<rparr>))
   \<and> snd (growthTicks 2 (seedWorld 1972 (freshProcess 0 (lotEngine (5 / 10)))))
       = [[[(1, 0)]], [[]]]
   \<and> snd (growthTicks 2 (seedWorld 1972 (freshProcess 7
        \<lparr>worldState = poweredLot\<lparr>tileSize := 16, seed := 5\<rparr>,
         powerSystem = (recalculate poweredLot initialGridState)\<lparr>capacity := 0\<rparr>,
         cityHappiness = 5 / 10\<rparr>)))
       = [[[(1, 0)]], [[]]]
   \<and> building \<lparr>type = RES, building = Some \<lparr>level = 0, unpoweredTime = 0\<rparr>\<rparr>
       = Some \<lparr>level = 0, unpoweredTime = 0\<rparr>
   \<and> (0 :: int) \<le> 1972 \<and> (1972 :: int) < 2 ^ 32
   \<and> current (snd (RNG_next \<lparr>rng_seed = 1972, current = 1972\<rparr>)) = 1380227
   \<and> growTile True (5 / 10) \<lparr>type = RES, building = Some \<lparr>level = 0, unpoweredTime = 0\<rparr>\<rparr>
        \<lparr>rng_seed = 1972, current = 1972\<rparr>
       = (\<lparr>type = RES, building = Some \<lparr>level = 1, unpoweredTime = 0\<rparr>\<rparr>,
          \<lparr>rng_seed = 1972, current = 1380227\<rparr>, True)"
proof -
  let ?e2 = "\<lparr>worldState = poweredLot\<lparr>tileSize := 16, seed := 5\<rparr>,
         powerSystem = (recalculate poweredLot initialGridState)\<lparr>capacity := 0\<rparr>,
         cityHappiness = 5 / 10\<rparr>"
  let ?r = "\<lparr>rng_seed = 1972, current = 1972\<rparr>"
  let ?t = "\<lparr>type = RES, building = Some \<lparr>level = 0, unpoweredTime = 0\<rparr>\<rparr>"
  note inst = growth_deterministic [where ?P1.0 = "freshProcess 0 (lotEngine (5 / 10))"
        and ?P2.0 = "freshProcess 7 ?e2" and n = 2 and sd = 1972
        and r = ?r and tile = ?t and b = "\<lparr>level = 0, unpoweredTime = 0\<rparr>" and hap = "5 / 10"]
  have sg: "list_all2 sameEngine (tickListeners (freshProcess 0 (lotEngine (5 / 10))))
              (tickListeners (freshProcess 7 ?e2))"
    by (simp add: freshProcess_def newGrowthSystem_def seedWorld_def loadModule_def
        sameEngine_def sameGrid_def lotEngine_def)
  have ev: "snd (growthTicks 2 (seedWorld 1972 (freshProcess 0 (lotEngine (5 / 10)))))
              = [[[(1, 0)]], [[]]]"
    by (simp add: numeral_2_eq_2 freshProcess_def newGrowthSystem_def seedWorld_def
        loadModule_def setSeed_def lotEngine_first_tick lotEngine_second_tick)
  have nx: "current (snd (RNG_next ?r)) = 1380227"
    using inst by simp
  have sn: "snd (RNG_next ?r) = \<lparr>rng_seed = 1972, current = 1380227\<rparr>"
    using nx by (simp add: RNG_next_def Let_def)
  have dr: "fst (RNG_next ?r) < 1 / 100"
    using inst nx by simp
  have gt: "growTile True (5 / 10) ?t ?r
       = (\<lparr>type = RES, building = Some \<lparr>level = 1, unpoweredTime = 0\<rparr>\<rparr>,
          \<lparr>rng_seed = 1972, current = 1380227\<rparr>, True)"
    using inst dr sn by simp
  show ?thesis
    using sg ev nx gt inst by simp
qed

section \<open>Undo and redo\<close>

lemma writeTile_restore:
  "getTile w x y = Some old \<Longrightarrow> writeTile (writeTile w x y t) x y old = w"
proof -
  assume "getTile w x y = Some old"
  then have old: "old = tiles w ! nat y ! nat x"
    by (auto simp: getTile_def split: if_splits)
  show ?thesis
  proof (cases "nat y < length (tiles w)")
    case True
    then show ?thesis by (simp add: writeTile_def old)
  next
    case False
    then show ?thesis by (simp add: writeTile_def list_update_beyond)
  qed
qed

lemma paintUndo_paintExecute:
  assumes "captures1 w c"
  shows "paintUndo c (paintExecute c w) = w"
proof -
  let ?x = "fst (position c)" and ?y = "snd (position c)"
  have g: "getTile w ?x ?y = Some (oldTile c)" using assms by (simp add: captures1_def)
  then have v: "\<not> (?x < 0 \<or> ?x \<ge> width w \<or> ?y < 0 \<or> ?y \<ge> height w)"
    by (auto simp: getTile_def split: if_splits)
  have e: "paintExecute c w = writeTile w ?x ?y (newTile c)"
    using v by (simp add: paintExecute_def setTile_def)
  have "paintUndo c (writeTile w ?x ?y (newTile c))
          = writeTile (writeTile w ?x ?y (newTile c)) ?x ?y (oldTile c)"
    using v by (simp add: paintUndo_def setTile_def dims_writeTile)
  then show ?thesis using e writeTile_restore [OF g] by simp
qed

lemma batchUndo_batchExecute:
  "capturesAll w cs \<Longrightarrow> batchUndo cs (batchExecute cs w) = w"
  by (induction cs arbitrary: w) (simp_all add: batchUndo_def batchExecute_def paintUndo_paintExecute)

lemma commandUndo_commandExecute:
  "captures w c \<Longrightarrow> commandUndo c (commandExecute c w) = w"
  by (cases c) (simp_all add: paintUndo_paintExecute batchUndo_batchExecute)

lemma capturesAll_append:
  "capturesAll w (cs @ [c]) \<longleftrightarrow> capturesAll w cs \<and> captures1 (batchExecute cs w) c"
  by (induction cs arbitrary: w) (simp_all add: batchExecute_def)

lemma undoable_prefix: "undoable w (xs @ ys) \<Longrightarrow> undoable w xs"
  by (induction xs arbitrary: w) simp_all

lemma consistent_new: "consistent (newCommandQueue, w)"
  by (simp add: consistent_def newCommandQueue_def)

lemma consistent_queueExecute:
  assumes "consistent (q, w)" and "captures w c"
  shows "consistent (queueExecute c (q, w))"
proof -
  let ?k = "nat (currentIndex q + 1)"
  let ?h1 = "take ?k (history q)"
  let ?w = "commandExecute c w"
  from assms(1) have idx: "- 1 \<le> currentIndex q" "currentIndex q < int (length (history q))"
    and un: "undoable w (rev ?h1)"
    by (simp_all add: consistent_def Let_def)
  have h1: "(if currentIndex q < int (length (history q)) - 1 then ?h1 else history q) = ?h1"
    using idx by auto
  have len: "int (length ?h1) = currentIndex q + 1" using idx by simp
  have cu: "commandUndo c ?w = w" using assms(2) by (rule commandUndo_commandExecute)
  have un2: "undoable ?w (rev (?h1 @ [c]))" using un cu by simp
  have "?h1 @ [c] = hd (?h1 @ [c]) # tl (?h1 @ [c])" by simp
  then have "rev (?h1 @ [c]) = rev (tl (?h1 @ [c])) @ [hd (?h1 @ [c])]"
    by (metis rev.simps(2))
  then have un3: "undoable ?w (rev (tl (?h1 @ [c])))"
    using un2 undoable_prefix by metis
  have ltl: "int (length (tl (?h1 @ [c]))) = currentIndex q + 1" using len by simp
  show ?thesis
  proof (cases "int (length (?h1 @ [c])) > maxHistory q")
    case True
    then have r: "queueExecute c (q, w)
        = (q\<lparr>history := tl (?h1 @ [c]), currentIndex := currentIndex q + 1 - 1\<rparr>, ?w)"
      by (simp add: queueExecute_def Let_def h1)
    show ?thesis unfolding r using idx un3 ltl
      by (auto simp: consistent_def Let_def split: if_splits)
  next
    case False
    then have r: "queueExecute c (q, w)
        = (q\<lparr>history := ?h1 @ [c], currentIndex := currentIndex q + 1\<rparr>, ?w)"
      by (simp add: queueExecute_def Let_def h1)
    show ?thesis unfolding r using idx un2 len
      by (auto simp: consistent_def Let_def split: if_splits)
  qed
qed


lemma consistent_queueUndo:
  assumes "consistent (q, w)"
  shows "consistent (snd (queueUndo (q, w)))"
proof (cases "canUndo q")
  case False
  then show ?thesis using assms by (simp add: queueUndo_def)
next
  case True
  define j where "j = nat (currentIndex q)"
  define c where "c = history q ! j"
  have pos: "0 \<le> currentIndex q" using True by (simp add: canUndo_def)
  then have idx: "currentIndex q = int j" by (simp add: j_def)
  have k: "nat (currentIndex q + 1) = Suc j" unfolding idx by linarith
  from assms have "currentIndex q < int (length (history q))"
    and un: "undoable w (rev (take (Suc j) (history q)))"
    and re: "redoable w (drop (Suc j) (history q))"
    unfolding consistent_def Let_def fst_conv snd_conv k by blast+
  then have jl: "j < length (history q)" unfolding idx by simp
  have "rev (take (Suc j) (history q)) = c # rev (take j (history q))"
    using jl by (simp add: take_Suc_conv_app_nth c_def)
  with un have u1: "commandExecute c (commandUndo c w) = w"
    and u2: "undoable (commandUndo c w) (rev (take j (history q)))" by simp_all
  have "drop j (history q) = c # drop (Suc j) (history q)"
    using jl by (simp add: Cons_nth_drop_Suc c_def)
  then have r2: "redoable (commandUndo c w) (drop j (history q))"
    using u1 re by simp
  have r: "snd (queueUndo (q, w)) = (q\<lparr>currentIndex := int j - 1\<rparr>, commandUndo c w)"
    using True by (simp add: queueUndo_def Let_def idx c_def)
  show ?thesis unfolding r using jl u2 r2 by (simp add: consistent_def Let_def)
qed

lemma consistent_queueRedo:
  assumes "consistent (q, w)"
  shows "consistent (snd (queueRedo (q, w)))"
proof (cases "canRedo q")
  case False
  then show ?thesis using assms by (simp add: queueRedo_def)
next
  case True
  define j where "j = nat (currentIndex q + 1)"
  define c where "c = history q ! j"
  from assms have lo: "- 1 \<le> currentIndex q"
    and un: "undoable w (rev (take j (history q)))"
    and re: "redoable w (drop j (history q))"
    unfolding consistent_def Let_def fst_conv snd_conv j_def by blast+
  have idx: "currentIndex q + 1 = int j" using lo by (simp add: j_def)
  have "currentIndex q + 1 < int (length (history q))" using True by (simp add: canRedo_def)
  then have jl: "j < length (history q)" unfolding idx by simp
  have "drop j (history q) = c # drop (Suc j) (history q)"
    using jl by (simp add: Cons_nth_drop_Suc c_def)
  with re have r1: "commandUndo c (commandExecute c w) = w"
    and r2: "redoable (commandExecute c w) (drop (Suc j) (history q))" by simp_all
  have "rev (take (Suc j) (history q)) = c # rev (take j (history q))"
    using jl by (simp add: take_Suc_conv_app_nth c_def)
  then have u2: "undoable (commandExecute c w) (rev (take (Suc j) (history q)))"
    using r1 un by simp
  have r: "snd (queueRedo (q, w)) = (q\<lparr>currentIndex := int j\<rparr>, commandExecute c w)"
    using True by (simp add: queueRedo_def Let_def idx c_def)
  have k': "nat (int j + 1) = Suc j" by linarith
  show ?thesis unfolding r using jl u2 r2
    by (simp add: consistent_def Let_def k')
qed

lemma undo_then_redo:
  assumes "consistent (q, w)" and "canUndo q"
  shows "queueRedo (snd (queueUndo (q, w))) = (True, q, w)"
proof -
  define j where "j = nat (currentIndex q)"
  define c where "c = history q ! j"
  have pos: "0 \<le> currentIndex q" using assms(2) by (simp add: canUndo_def)
  then have idx: "currentIndex q = int j" by (simp add: j_def)
  have k: "nat (currentIndex q + 1) = Suc j" unfolding idx by linarith
  from assms(1) have "currentIndex q < int (length (history q))"
    and un: "undoable w (rev (take (Suc j) (history q)))"
    unfolding consistent_def Let_def fst_conv snd_conv k by blast+
  then have jl: "j < length (history q)" unfolding idx by simp
  have "rev (take (Suc j) (history q)) = c # rev (take j (history q))"
    using jl by (simp add: take_Suc_conv_app_nth c_def)
  with un have u1: "commandExecute c (commandUndo c w) = w" by simp
  have r: "snd (queueUndo (q, w)) = (q\<lparr>currentIndex := int j - 1\<rparr>, commandUndo c w)"
    using assms(2) by (simp add: queueUndo_def Let_def idx c_def)
  have "q\<lparr>currentIndex := int j\<rparr> = q" using idx by simp
  then show ?thesis unfolding r using jl u1
    by (simp add: queueRedo_def Let_def canRedo_def c_def)
qed


lemma paint_strokeInv:
  assumes "strokeInv w0 bw"
  shows "strokeInv w0 (snd (paint p bw))"
proof -
  obtain b w where bw: "bw = (b, w)" by (cases bw)
  have inv: "w = batchExecute (currentBatch b) w0" "capturesAll w0 (currentBatch b)"
    using assms by (simp_all add: strokeInv_def bw)
  have step: "strokeInv w0
      (b\<lparr>currentBatch := currentBatch b @ [c], paintedTiles := insert p (paintedTiles b)\<rparr>,
       paintExecute c w)"
    if "getTile w (fst p) (snd p) = Some (oldTile c)" and "position c = p" for c
    using that inv
    by (simp add: strokeInv_def capturesAll_append captures1_def batchExecute_def)
  show ?thesis
    unfolding bw paint_def Let_def fst_conv snd_conv
    using assms step
    by (auto simp: bw split: option.splits)
qed

lemma strokeInv_base: "strokeInv w0 (b, w) \<Longrightarrow> batchUndo (currentBatch b) w = w0"
  using batchUndo_batchExecute [of w0 "currentBatch b"] by (simp add: strokeInv_def)

lemma editInvI:
  "consistent (queue st, w0) \<Longrightarrow> strokeInv w0 (brush st, world st) \<Longrightarrow> editInv st"
  using strokeInv_base [of w0 "brush st" "world st"] by (simp add: editInv_def strokeBase_def)

lemma editInv_idle:
  "editInv st \<Longrightarrow> currentBatch (brush st) = [] \<Longrightarrow> consistent (queue st, world st)"
  by (simp add: editInv_def strokeBase_def batchUndo_def)

lemma strokeInv_idle: "currentBatch b = [] \<Longrightarrow> strokeInv w (b, w)"
  by (simp add: strokeInv_def batchExecute_def)

lemma editInv_new: "editInv (newEditState w)"
  by (rule editInvI [of _ w])
     (simp_all add: newEditState_def newBrushTool_def consistent_new strokeInv_idle)

lemma editInv_perform:
  assumes "editInv st" and "admissible (a # as) st"
  shows "editInv (perform a st)"
proof -
  let ?w0 = "strokeBase st"
  have c0: "consistent (queue st, ?w0)" and s0: "strokeInv ?w0 (brush st, world st)"
    using assms(1) by (simp_all add: editInv_def)
  have base: "batchUndo (currentBatch (brush st)) (world st) = ?w0"
    by (simp add: strokeBase_def)
  show ?thesis
  proof (cases a)
    case (Exec c)
    then have idle: "currentBatch (brush st) = []" and cap: "captures (world st) c"
      using assms(2) by simp_all
    have "consistent (queue st, world st)" using assms(1) idle by (rule editInv_idle)
    then have "consistent (queueExecute c (queue st, world st))"
      using cap by (rule consistent_queueExecute)
    then show ?thesis
      unfolding Exec by (intro editInvI [of _ "snd (queueExecute c (queue st, world st))"])
        (simp_all add: Let_def idle strokeInv_idle)
  next
    case (SetBrushType bt)
    show ?thesis
      unfolding SetBrushType using c0 s0
      by (intro editInvI [of _ ?w0]) (simp_all add: setBrushType_def strokeInv_def)
  next
    case StartPaint
    then have idle: "currentBatch (brush st) = []" using assms(2) by simp
    have "consistent (queue st, world st)" using assms(1) idle by (rule editInv_idle)
    then show ?thesis
      unfolding StartPaint
      by (intro editInvI [of _ "world st"]) (simp_all add: startPaint_def strokeInv_idle)
  next
    case (Paint p)
    have "strokeInv ?w0 (snd (paint p (brush st, world st)))" using s0 by (rule paint_strokeInv)
    then show ?thesis
      unfolding Paint using c0 by (intro editInvI [of _ ?w0]) (simp_all add: Let_def)
  next
    case StopPaint
    let ?cs = "currentBatch (brush st)"
    have cap: "capturesAll ?w0 ?cs" using s0 by (simp add: strokeInv_def)
    have u: "fold paintUndo (rev ?cs) (world st) = ?w0" using base by (simp add: batchUndo_def)
    show ?thesis
    proof (cases "isPainting (brush st)")
      case False
      then have "perform StopPaint st = st" by (simp add: stopPaint_def Let_def)
      then show ?thesis using assms(1) StopPaint by simp
    next
      case True
      show ?thesis
      proof (cases "?cs = []")
        case e: True
        then have w: "world st = ?w0" using u by simp
        show ?thesis
          unfolding StopPaint using True e c0 w
          by (intro editInvI [of _ ?w0]) (simp_all add: stopPaint_def Let_def strokeInv_idle)
      next
        case ne: False
        have "consistent (queueExecute (BatchPaint ?cs) (queue st, ?w0))"
          using c0 cap by (intro consistent_queueExecute) simp_all
        then show ?thesis
          unfolding StopPaint using True ne u
          by (intro editInvI [of _ "snd (queueExecute (BatchPaint ?cs) (queue st, ?w0))"])
            (simp_all add: stopPaint_def Let_def strokeInv_idle)
      qed
    qed
  next
    case Cancel
    have u: "fold paintUndo (rev (currentBatch (brush st))) (world st) = ?w0"
      using base by (simp add: batchUndo_def)
    show ?thesis
      unfolding Cancel using c0 u
      by (intro editInvI [of _ ?w0]) (simp_all add: cancel_def Let_def strokeInv_idle)
  next
    case Undo
    then have idle: "currentBatch (brush st) = []" using assms(2) by simp
    have "consistent (queue st, world st)" using assms(1) idle by (rule editInv_idle)
    then have "consistent (snd (queueUndo (queue st, world st)))" by (rule consistent_queueUndo)
    then show ?thesis
      unfolding Undo by (intro editInvI [of _ "snd (snd (queueUndo (queue st, world st)))"])
        (simp_all add: Let_def idle strokeInv_idle)
  next
    case Redo
    then have idle: "currentBatch (brush st) = []" using assms(2) by simp
    have "consistent (queue st, world st)" using assms(1) idle by (rule editInv_idle)
    then have "consistent (snd (queueRedo (queue st, world st)))" by (rule consistent_queueRedo)
    then show ?thesis
      unfolding Redo by (intro editInvI [of _ "snd (snd (queueRedo (queue st, world st)))"])
        (simp_all add: Let_def idle strokeInv_idle)
  qed
qed

lemma admissible_tail: "admissible (a # as) st \<Longrightarrow> admissible as (perform a st)"
  by (cases a) simp_all

lemma editInv_run:
  "editInv st \<Longrightarrow> admissible acts st \<Longrightarrow> editInv (fold perform acts st)"
proof (induction acts arbitrary: st)
  case Nil
  then show ?case by simp
next
  case (Cons a acts)
  have "editInv (perform a st)" using Cons.prems by (rule editInv_perform)
  moreover have "admissible acts (perform a st)" using Cons.prems(2) by (rule admissible_tail)
  ultimately show ?case using Cons.IH by simp
qed

text \<open>
  C8, as stated, fails on two runs over a one-tile grid. Executing the same single-tile
  command (EMPTY to ROAD) twice and undoing once leaves an EMPTY tile with undo available;
  \<open>undo\<close> then \<open>redo\<close> makes it ROAD. Painting RES, then COM, then starting a ROAD stroke and
  pressing Ctrl+Z before the mouse up, then Ctrl+Z again, leaves a COM tile with undo
  available; \<open>undo\<close> then \<open>redo\<close> makes it RES. Painting RES and then starting a COM stroke
  twice over drops the first batch of that stroke: the tile is COM, the log holds the RES
  stroke only, and \<open>undo\<close> then \<open>redo\<close> makes it RES.
\<close>

theorem undo_redo_changes_grid:
  "canUndo (queue (fold perform replayedCommandRun (newEditState oneByOne)))
   \<and> tiles (world (fold perform replayedCommandRun (newEditState oneByOne)))
       = [[\<lparr>type = EMPTY, building = None\<rparr>]]
   \<and> tiles (world (undoThenRedo (fold perform replayedCommandRun (newEditState oneByOne))))
       = [[\<lparr>type = ROAD, building = None\<rparr>]]
   \<and> canUndo (queue (fold perform midStrokeUndoRun (newEditState oneByOne)))
   \<and> tiles (world (fold perform midStrokeUndoRun (newEditState oneByOne)))
       = [[\<lparr>type = COM, building = None\<rparr>]]
   \<and> tiles (world (undoThenRedo (fold perform midStrokeUndoRun (newEditState oneByOne))))
       = [[\<lparr>type = RES, building = None\<rparr>]]
   \<and> canUndo (queue (fold perform restartedStrokeRun (newEditState oneByOne)))
   \<and> tiles (world (fold perform restartedStrokeRun (newEditState oneByOne)))
       = [[\<lparr>type = COM, building = None\<rparr>]]
   \<and> tiles (world (undoThenRedo (fold perform restartedStrokeRun (newEditState oneByOne))))
       = [[\<lparr>type = RES, building = None\<rparr>]]"
  by code_simp

text \<open>
  C8, amended. After any sequence of editing actions from a new command log in which every
  command handed to the log records the tile it replaces and no command, stroke start, undo
  or redo falls inside an unfinished stroke, whenever no stroke is unfinished and undo is
  possible, \<open>undo\<close> followed by \<open>redo\<close> succeeds and leaves the grid, and the log, exactly as
  they were; this covers single-tile and batch commands.
\<close>

theorem undo_redo_round_trip:
  assumes "admissible acts (newEditState w)"
    and "currentBatch (brush (fold perform acts (newEditState w))) = []"
    and "canUndo (queue (fold perform acts (newEditState w)))"
  shows "queueRedo (snd (queueUndo (queue (fold perform acts (newEditState w)),
                                     world (fold perform acts (newEditState w)))))
           = (True, queue (fold perform acts (newEditState w)),
                    world (fold perform acts (newEditState w)))
         \<and> undoThenRedo (fold perform acts (newEditState w)) = fold perform acts (newEditState w)"
proof -
  let ?st = "fold perform acts (newEditState w)"
  have "editInv ?st" using editInv_new assms(1) by (rule editInv_run)
  then have "consistent (queue ?st, world ?st)" using assms(2) by (rule editInv_idle)
  then have r: "queueRedo (snd (queueUndo (queue ?st, world ?st))) = (True, queue ?st, world ?st)"
    using assms(3) by (rule undo_then_redo)
  then show ?thesis by (simp add: undoThenRedo_def Let_def)
qed

theorem undo_redo_round_trip_witness:
  "admissible exampleActions (newEditState twoByOne)
   \<and> currentBatch (brush (fold perform exampleActions (newEditState twoByOne))) = []
   \<and> canUndo (queue (fold perform exampleActions (newEditState twoByOne)))
   \<and> tiles (world (fold perform exampleActions (newEditState twoByOne)))
       = [[\<lparr>type = RES, building = None\<rparr>, \<lparr>type = ROAD, building = None\<rparr>]]
   \<and> tiles (world (perform Undo (fold perform exampleActions (newEditState twoByOne))))
       = [[\<lparr>type = RES, building = None\<rparr>, \<lparr>type = RES, building = None\<rparr>]]
   \<and> undoThenRedo (fold perform exampleActions (newEditState twoByOne))
       = fold perform exampleActions (newEditState twoByOne)"
proof -
  have a: "admissible exampleActions (newEditState twoByOne)" by code_simp
  have b: "currentBatch (brush (fold perform exampleActions (newEditState twoByOne))) = []"
    by code_simp
  have u: "canUndo (queue (fold perform exampleActions (newEditState twoByOne)))" by code_simp
  have t1: "tiles (world (fold perform exampleActions (newEditState twoByOne)))
       = [[\<lparr>type = RES, building = None\<rparr>, \<lparr>type = ROAD, building = None\<rparr>]]" by code_simp
  have t2: "tiles (world (perform Undo (fold perform exampleActions (newEditState twoByOne))))
       = [[\<lparr>type = RES, building = None\<rparr>, \<lparr>type = RES, building = None\<rparr>]]" by code_simp
  show ?thesis
    using a b u t1 t2 undo_redo_round_trip [OF a b u] by simp
qed

end
